theory Spec2Isabelle
  imports Main "HOL-Library.Char_ord" "HOL-Library.List_Lexorder" "HOL-Library.Product_Lexorder"
begin

section \<open>The Palo Alto firewall generator (capirca/lib/paloaltofw.py)\<close>

text \<open>
  A shallow embedding of \<^verbatim>\<open>paloaltofw.py\<close>: the service registry
  (\<^verbatim>\<open>Service\<close>), the rule builder (\<^verbatim>\<open>Rule.ModifyOptions\<close>), the translation
  pass (\<^verbatim>\<open>PaloAltoFW._TranslatePolicy\<close>), the address book
  (\<^verbatim>\<open>_BuildAddressBook\<close>) and the address, service and rule sections of
  \<^verbatim>\<open>PaloAltoFW.__str__\<close>. Python dictionaries are association lists in insertion
  order with unique keys; exceptions are values of \<open>error\<close>; the objects the code
  mutates (the generator, the class-level service map, the caller's terms) are passed in
  and returned.
\<close>

subsection \<open>Errors\<close>

datatype error =
    UnsupportedFilterError
  | UnsupportedHeaderError string
  | PaloAltoFWDuplicateTermError string
  | PaloAltoFWUnsupportedProtocolError string
  | PaloAltoFWOptionError
  | PaloAltoFWDuplicateServiceError string
  | PaloAltoFWNameTooLongError string
  | PaloAltoFWBadIcmpTypeError string string
  | TermNameTooLongError string
  | PyKeyError
  | PyTypeError
  | PyIndexError
  | PyValueError

subsection \<open>Python strings and dictionaries\<close>

definition digit_char :: "nat \<Rightarrow> char" where
  "digit_char d = ''0123456789'' ! d"

fun str_nat :: "nat \<Rightarrow> string" where
  "str_nat n = (if n < 10 then [digit_char n] else str_nat (n div 10) @ [digit_char (n mod 10)])"

declare str_nat.simps [simp del]

text \<open>\<^verbatim>\<open>str(i)\<close> and \<^verbatim>\<open>"%d" % i\<close> of a Python integer.\<close>

definition str_int :: "int \<Rightarrow> string" where
  "str_int i = (if i < 0 then CHR ''-'' # str_nat (nat (- i)) else str_nat (nat i))"

text \<open>\<^verbatim>\<open>sep.join(xs)\<close>.\<close>

fun join :: "string \<Rightarrow> string list \<Rightarrow> string" where
  "join sep [] = []"
| "join sep [x] = x"
| "join sep (x # y # ys) = x @ sep @ join sep (y # ys)"

text \<open>\<^verbatim>\<open>k in d\<close>, \<^verbatim>\<open>d[k]\<close> and \<^verbatim>\<open>d[k] = v\<close> on a dictionary kept in insertion
  order: an assignment to a key already present keeps the key's place.\<close>

definition dict_has :: "('k \<times> 'v) list \<Rightarrow> 'k \<Rightarrow> bool" where
  "dict_has d k = (k \<in> set (map fst d))"

definition dict_get :: "('k \<times> 'v) list \<Rightarrow> 'k \<Rightarrow> 'v option" where
  "dict_get d k = map_of d k"

fun dict_set :: "('k \<times> 'v) list \<Rightarrow> 'k \<Rightarrow> 'v \<Rightarrow> ('k \<times> 'v) list" where
  "dict_set [] k v = [(k, v)]"
| "dict_set ((k', v') # d) k v = (if k' = k then (k, v) # d else (k', v') # dict_set d k v)"

subsection \<open>Addresses and terms\<close>

datatype ipver = IPv4 | IPv6

fun ver_str :: "ipver \<Rightarrow> string" where
  "ver_str IPv4 = ''4''"
| "ver_str IPv6 = ''6''"

text \<open>
  A \<^verbatim>\<open>nacaddr\<close> network object as this module reads it: \<^verbatim>\<open>addr.version\<close>,
  \<^verbatim>\<open>addr.parent_token\<close>, \<^verbatim>\<open>str(addr)\<close> (\<open>str_form\<close>) and the range of addresses
  it covers (\<open>first_ip\<close> is the network address, \<open>last_ip\<close> the broadcast address).
\<close>

record addr =
  version :: ipver
  parent_token :: string
  str_form :: string
  first_ip :: nat
  last_ip :: nat

text \<open>
  Modelled from the spec: \<^verbatim>\<open>nacaddr\<close>'s \<^verbatim>\<open>supernet_of\<close> is not under src/. The spec
  (4.2) only says ``is a supernet of''; it is taken as range containment between
  networks of one version, strictness not required.
\<close>

definition supernet_of :: "addr \<Rightarrow> addr \<Rightarrow> bool" where
  "supernet_of a b =
     (version a = version b \<and> first_ip a \<le> first_ip b \<and> last_ip b \<le> last_ip a)"

text \<open>A \<^verbatim>\<open>policy.Term\<close>, the fields this module reads. Dates are day ordinals.\<close>

record pterm =
  name :: string
  comment :: "string list"
  source_address :: "addr list"
  destination_address :: "addr list"
  source_address_exclude :: "addr list"
  destination_address_exclude :: "addr list"
  protocol :: "string list"
  destination_port :: "(int \<times> int) list"
  pan_application :: "string list"
  icmp_type :: "string list"
  action :: "string list"
  option :: "string list"
  logging :: "string list"
  expiration :: "int option"
  stateless_reply :: bool

subsection \<open>The service registry: class \<^verbatim>\<open>Service\<close>\<close>

text \<open>\<^verbatim>\<open>Service.service_map\<close>: the key is (ports, protocol), the value holds the name.\<close>

type_synonym service_key = "string list \<times> string"
type_synonym service_map = "(service_key \<times> string) list"

text \<open>\<^verbatim>\<open>repr\<close> of a port string (digits and hyphens: nothing to escape) and
  \<^verbatim>\<open>str\<close> of the tuple of them.\<close>

definition py_repr :: "string \<Rightarrow> string" where
  "py_repr s = [CHR 0x27] @ s @ [CHR 0x27]"

definition py_str_tuple :: "string list \<Rightarrow> string" where
  "py_str_tuple xs =
     ''('' @ (case xs of [x] \<Rightarrow> py_repr x @ '','' | _ \<Rightarrow> join '', '' (map py_repr xs)) @ '')''"

definition final_service_name :: "string \<Rightarrow> string \<Rightarrow> string" where
  "final_service_name service_name proto = ''service-'' @ service_name @ ''-'' @ proto"

text \<open>\<^verbatim>\<open>Service.__init__(ports, service_name, protocol)\<close>, returning the updated map.
  The duplicate-service error carries what the message is formatted with: \<^verbatim>\<open>str(ports)\<close>
  for a key already present, the name for a name already present.\<close>

definition Service :: "service_map \<Rightarrow> string list \<Rightarrow> string \<Rightarrow> string \<Rightarrow> error + service_map" where
  "Service smap ports service_name proto =
     (if dict_has smap (ports, proto)
      then Inl (PaloAltoFWDuplicateServiceError (py_str_tuple ports))
      else let final = final_service_name service_name proto in
        if final \<in> set (map snd smap) then Inl (PaloAltoFWDuplicateServiceError final)
        else if length final > 63 then Inl (PaloAltoFWNameTooLongError final)
        else Inr (dict_set smap (ports, proto) final))"

subsection \<open>Rules: class \<^verbatim>\<open>Rule\<close>\<close>

record rule_options =
  opt_from_zone :: "string list"
  opt_to_zone :: "string list"
  opt_description :: "string list"
  opt_source :: "string list"
  opt_destination :: "string list"
  opt_application :: "string list"
  opt_service :: "string list"
  opt_logging :: "string list"
  opt_action :: "string option"
  opt_option :: "string list option"

text \<open>The \<^verbatim>\<open># LOGGING\<close> loop of \<^verbatim>\<open>ModifyOptions\<close>; \<open>acc\<close> is
  \<^verbatim>\<open>self.options["logging"]\<close>.\<close>

fun logging_loop :: "string list \<Rightarrow> string list \<Rightarrow> string list" where
  "logging_loop acc [] = acc"
| "logging_loop acc (item # items) =
     (if item \<in> set [''disable''] then [''disable'']
      else if item \<in> set [''log-both''] then logging_loop (acc @ [''log-start'', ''log-end'']) items
      else if item \<in> set [''True'', ''true'', ''syslog'', ''local'']
        then logging_loop (acc @ [''log-end'']) items
      else logging_loop acc items)"

text \<open>The \<^verbatim>\<open># SOURCE-ADDRESS\<close> and \<^verbatim>\<open># DESTINATION-ADDRESS\<close> blocks: the sorted set
  of parent tokens, or \<^verbatim>\<open>any\<close> for an empty list.\<close>

definition address_tokens :: "addr list \<Rightarrow> string list" where
  "address_tokens addrs =
     (if addrs \<noteq> [] then sort (remdups (map parent_token addrs)) else [''any''])"

text \<open>The port strings of \<^verbatim>\<open>term.destination_port\<close>.\<close>

definition port_strings :: "(int \<times> int) list \<Rightarrow> string list" where
  "port_strings dports =
     map (\<lambda>tup. if fst tup \<noteq> snd tup then str_int (fst tup) @ ''-'' @ str_int (snd tup)
                else str_int (fst tup)) dports"

text \<open>One round of \<^verbatim>\<open>for p in term.protocol\<close>: the service of (ports, p) is looked
  up, and created when it is missing; the result is its name and the map.\<close>

definition service_lookup ::
  "service_map \<Rightarrow> string list \<Rightarrow> string \<Rightarrow> string \<Rightarrow> error + (string \<times> service_map)" where
  "service_lookup smap ports tname p =
     (case dict_get smap (ports, p) of
        Some n \<Rightarrow> Inr (n, smap)
      | None \<Rightarrow>
          (case Service smap ports tname p of
             Inl e \<Rightarrow> Inl e
           | Inr smap' \<Rightarrow>
               (case dict_get smap' (ports, p) of
                  None \<Rightarrow> Inl PyKeyError
                | Some n \<Rightarrow> Inr (n, smap'))))"

text \<open>The loop; \<open>acc\<close> is \<^verbatim>\<open>self.options["service"]\<close>.\<close>

fun service_loop ::
  "string list \<Rightarrow> string \<Rightarrow> service_map \<Rightarrow> string list \<Rightarrow> string list
     \<Rightarrow> error + (string list \<times> service_map)" where
  "service_loop ports tname smap acc [] = Inr (acc, smap)"
| "service_loop ports tname smap acc (p # ps) =
     (case service_lookup smap ports tname p of
        Inl e \<Rightarrow> Inl e
      | Inr (n, smap') \<Rightarrow> service_loop ports tname smap' (acc @ [n]) ps)"

text \<open>The last loop of \<^verbatim>\<open>ModifyOptions\<close>: the generic applications of the protocols;
  \<open>acc\<close> is \<^verbatim>\<open>self.options["application"]\<close>.\<close>

fun application_loop :: "string list \<Rightarrow> string list \<Rightarrow> string list" where
  "application_loop acc [] = acc"
| "application_loop acc (proto_name # ps) =
     (if proto_name \<in> set [''icmp'', ''icmpv6''] then application_loop acc ps
      else if proto_name \<in> set [''igmp'', ''sctp'']
        then application_loop (if proto_name \<notin> set acc then acc @ [proto_name] else acc) ps
      else if proto_name \<in> set [''tcp'', ''udp'']
        then application_loop (if ''any'' \<notin> set acc then acc @ [''any''] else acc) ps
      else application_loop acc ps)"

text \<open>\<^verbatim>\<open>Rule.ModifyOptions\<close> on the options \<^verbatim>\<open>Rule.__init__\<close> has started. The term
  is only read.\<close>

definition ModifyOptions ::
  "service_map \<Rightarrow> string list \<Rightarrow> string list \<Rightarrow> pterm \<Rightarrow> error + (rule_options \<times> service_map)" where
  "ModifyOptions smap fz tz t =
     (case (if destination_port t \<noteq> []
            then service_loop (port_strings (destination_port t)) (name t) smap [] (protocol t)
            else Inr ([], smap)) of
        Inl e \<Rightarrow> Inl e
      | Inr (services, smap') \<Rightarrow>
          Inr (\<lparr> opt_from_zone = fz, opt_to_zone = tz,
                 opt_description = comment t,
                 opt_source = address_tokens (source_address t),
                 opt_destination = address_tokens (destination_address t),
                 opt_application = application_loop (pan_application t) (protocol t),
                 opt_service = services,
                 opt_logging = logging_loop [] (logging t),
                 opt_action = (case action t of [] \<Rightarrow> None | a # _ \<Rightarrow> Some a),
                 opt_option = (if option t \<noteq> [] then Some (option t) else None) \<rparr>,
               smap'))"

text \<open>\<^verbatim>\<open>Rule.__init__(from_zone, to_zone, terms)\<close>.\<close>

definition Rule :: "service_map \<Rightarrow> string \<Rightarrow> string \<Rightarrow> pterm \<Rightarrow> error + (rule_options \<times> service_map)" where
  "Rule smap fz tz t =
     (if fz = [] \<or> tz = [] then Inl PaloAltoFWOptionError
      else ModifyOptions smap [fz] [tz] t)"

text \<open>The class-level \<^verbatim>\<open>Service.service_map\<close> over time: it is written by
  \<^verbatim>\<open>Service.__init__\<close> alone, so a later state of the map is reached through
  successful registrations.\<close>

inductive registry_reaches :: "service_map \<Rightarrow> service_map \<Rightarrow> bool" where
  same: "registry_reaches m m"
| created: "registry_reaches m m1 \<Longrightarrow> Service m1 ports tname p = Inr m2 \<Longrightarrow> registry_reaches m m2"

subsection \<open>The generator's state and its collaborators\<close>

record header =
  platforms :: "string list"
  FilterOptions :: "string list"

record app_entry =
  app_category :: string
  app_subcategory :: string
  app_technology :: string
  app_description :: string
  app_default :: "(string \<times> string) list"
  app_risk :: string

text \<open>What \<^verbatim>\<open>logging.warning\<close> and \<^verbatim>\<open>logging.info\<close> are called with: the kind of
  message and the term's name.\<close>

datatype log_event =
    WarnStatelessReply string
  | WarnEstablished string
  | WarnTcpEstablished string
  | InfoExpiresSoon string
  | WarnExpired string
  | WarnIcmpv6InInet string
  | WarnIcmpInInet6 string
  | WarnInvalidCombinations string "string list"
  | WarnDifferentFamilies string
  | WarnRenderedWithout string

type_synonym address_book = "(string \<times> (string \<times> (addr \<times> string) list) list) list"
type_synonym ruleset = "(string \<times> rule_options) list"

text \<open>The \<^verbatim>\<open>PaloAltoFW\<close> object, together with the class-level
  \<^verbatim>\<open>Service.service_map\<close> (\<open>services\<close>) and the log.\<close>

record pafw =
  pafw_policies :: "(header \<times> ruleset \<times> string list) list"
  addressbook :: address_book
  applications :: "string list"
  application_refs :: "(string \<times> app_entry) list"
  from_zone :: string
  to_zone :: string
  services :: service_map
  log :: "log_event list"

text \<open>
  The parts of the repository this module calls that are not under src/, taken as
  parameters: \<^verbatim>\<open>aclgenerator.ACLGenerator.FixTermLength\<close> (\<open>None\<close> when it raises),
  \<^verbatim>\<open>nacaddr.RemoveAddressFromList\<close>, the table \<^verbatim>\<open>policy.Term.ICMP_TYPE\<close>, today's
  date and the \<^verbatim>\<open>exp_info\<close> argument (weeks).
\<close>

record env =
  FixTermLength :: "string \<Rightarrow> string option"
  RemoveAddressFromList :: "addr list \<Rightarrow> addr \<Rightarrow> addr list"
  ICMP_TYPE :: "ipver \<Rightarrow> string \<Rightarrow> int option"
  current_date :: int
  exp_info :: int

definition TERM_MAX_LENGTH :: nat where
  "TERM_MAX_LENGTH = 31"

definition SUPPORTED_AF :: "string list" where
  "SUPPORTED_AF = [''inet'', ''inet6'', ''mixed'']"

definition SUPPORTED_PROTO_NAMES :: "string list" where
  "SUPPORTED_PROTO_NAMES = [''tcp'', ''udp'', ''icmp'', ''icmpv6'', ''sctp'', ''igmp'']"

subsection \<open>\<^verbatim>\<open>_BuildAddressBook\<close>\<close>

definition BuildAddressBook :: "address_book \<Rightarrow> string \<Rightarrow> addr \<Rightarrow> address_book" where
  "BuildAddressBook book zone address =
     (let book1 = (if \<not> dict_has book zone then dict_set book zone [] else book);
          zb = (case dict_get book1 zone of Some z \<Rightarrow> z | None \<Rightarrow> []);
          zb1 = (if \<not> dict_has zb (parent_token address)
                 then dict_set zb (parent_token address) [] else zb);
          bucket = (case dict_get zb1 (parent_token address) of Some b \<Rightarrow> b | None \<Rightarrow> [])
      in if str_form address \<in> set (map (\<lambda>ip. str_form (fst ip)) bucket)
         then dict_set book1 zone zb1
         else dict_set book1 zone
                (dict_set zb1 (parent_token address)
                   (bucket @ [(address, parent_token address @ ''_'' @ str_nat (length bucket))])))"

text \<open>\<^verbatim>\<open>self.addressbook[zone][token]\<close>, empty when the zone or the token is not
  there.\<close>

definition bucket_of :: "address_book \<Rightarrow> string \<Rightarrow> string \<Rightarrow> (addr \<times> string) list" where
  "bucket_of book zone token =
     (case dict_get book zone of
        None \<Rightarrow> []
      | Some zb \<Rightarrow> (case dict_get zb token of None \<Rightarrow> [] | Some b \<Rightarrow> b))"

fun build_addresses :: "ipver list \<Rightarrow> string \<Rightarrow> address_book \<Rightarrow> addr list \<Rightarrow> address_book" where
  "build_addresses excl zone book [] = book"
| "build_addresses excl zone book (a # as) =
     (if version a \<in> set excl then build_addresses excl zone book as
      else build_addresses excl zone (BuildAddressBook book zone a) as)"

subsection \<open>\<^verbatim>\<open>_TranslatePolicy\<close>: the flows of a term\<close>

definition flow_dual :: "ipver \<Rightarrow> string" where
  "flow_dual v = ''ip'' @ ver_str v @ ''-ip'' @ ver_str v"

definition flow_src_only :: "ipver \<Rightarrow> string" where
  "flow_src_only v = ''ip'' @ ver_str v @ ''-src-only''"

definition flow_dst_only :: "ipver \<Rightarrow> string" where
  "flow_dst_only v = ''ip'' @ ver_str v @ ''-dst-only''"

definition flow_only :: "ipver \<Rightarrow> string" where
  "flow_only v = ''ip'' @ ver_str v @ ''-only''"

text \<open>\<^verbatim>\<open>afc[v]["src"]\<close> and \<^verbatim>\<open>afc[v]["dst"]\<close>.\<close>

definition afc :: "ipver \<Rightarrow> addr list \<Rightarrow> nat" where
  "afc v addrs = length (filter (\<lambda>a. version a = v) addrs)"

text \<open>One round of \<^verbatim>\<open>for v in [4, 6]\<close>: the flows it appends.\<close>

definition flows_of_version :: "addr list \<Rightarrow> addr list \<Rightarrow> ipver \<Rightarrow> string list" where
  "flows_of_version src dst v =
     (let src_any = (src = []); dst_any = (dst = []) in
      if src_any \<and> dst_any then [flow_dual v]
      else if (afc v src = 0 \<and> \<not> src_any) \<and> (afc v dst = 0 \<and> \<not> dst_any) then []
      else if (afc v src > 0 \<or> src_any) \<and> (afc v dst > 0 \<or> dst_any) then [flow_dual v]
      else if (afc v src > 0 \<or> src_any) \<and> afc v dst = 0 then [flow_src_only v, flow_only v]
      else if afc v src = 0 \<and> (afc v dst > 0 \<or> dst_any) then [flow_dst_only v, flow_only v]
      else [])"

definition compute_flows :: "addr list \<Rightarrow> addr list \<Rightarrow> string list" where
  "compute_flows src dst = flows_of_version src dst IPv4 @ flows_of_version src dst IPv6"

text \<open>The \<^verbatim>\<open>if filter_type == ...\<close> chain: the term is dropped (\<^verbatim>\<open>continue\<close>) with a
  warning, or goes on with the address families to exclude and the warnings logged.\<close>

datatype gate = Drop log_event | Keep "ipver list" "log_event list"

definition af_gate :: "string \<Rightarrow> string \<Rightarrow> string list \<Rightarrow> string list \<Rightarrow> gate" where
  "af_gate filter_type tname protos flows =
     (if filter_type = ''inet'' then
        (if ''icmpv6'' \<in> set protos then Drop (WarnIcmpv6InInet tname)
         else if ''ip4-ip4'' \<notin> set flows then Drop (WarnInvalidCombinations tname flows)
         else Keep [IPv6] [])
      else if filter_type = ''inet6'' then
        (if ''icmp'' \<in> set protos then Drop (WarnIcmpInInet6 tname)
         else if ''ip6-ip6'' \<notin> set flows then Drop (WarnInvalidCombinations tname flows)
         else Keep [IPv4] [])
      else if filter_type = ''mixed'' then
        (if ''ip4-ip4'' \<in> set flows \<and> ''ip6-ip6'' \<notin> set flows then Keep [IPv6] []
         else if ''ip6-ip6'' \<in> set flows \<and> ''ip4-ip4'' \<notin> set flows then Keep [IPv4] []
         else if ''ip4-ip4'' \<in> set flows \<and> ''ip6-ip6'' \<in> set flows then Keep [] []
         else if ''ip4-only'' \<in> set flows \<and> ''ip6-only'' \<in> set flows
           then Drop (WarnDifferentFamilies tname)
         else Keep (if ''ip4-ip4'' \<in> set flows then [IPv6] else [IPv4])
                   [WarnRenderedWithout tname])
      else Keep [] [])"

subsection \<open>\<^verbatim>\<open>_TranslatePolicy\<close>: ICMP applications\<close>

text \<open>The three things the ICMP block writes: \<^verbatim>\<open>self.application_refs\<close>,
  \<^verbatim>\<open>self.applications\<close> and \<^verbatim>\<open>term.pan_application\<close>.\<close>

type_synonym icmp_state = "(string \<times> app_entry) list \<times> string list \<times> string list"

definition icmp_app_name :: "ipver \<Rightarrow> string \<Rightarrow> string" where
  "icmp_app_name v type_name = (case v of IPv4 \<Rightarrow> ''icmp-'' | IPv6 \<Rightarrow> ''icmp6-'') @ type_name"

definition make_app_entry :: "string \<Rightarrow> string \<Rightarrow> int \<Rightarrow> int \<Rightarrow> app_entry" where
  "make_app_entry app_name icmp_type_keyword term_icmp_type risk_level =
     \<lparr> app_category = ''networking'', app_subcategory = ''ip-protocol'',
       app_technology = ''network-protocol'', app_description = app_name,
       app_default = [(icmp_type_keyword, str_int term_icmp_type)],
       app_risk = str_int risk_level \<rparr>"

text \<open>\<^verbatim>\<open>for term_icmp_type_name in term.icmp_type\<close>.\<close>

fun icmp_type_loop ::
  "env \<Rightarrow> ipver \<Rightarrow> string \<Rightarrow> int \<Rightarrow> string \<Rightarrow> icmp_state \<Rightarrow> string list \<Rightarrow> error + icmp_state" where
  "icmp_type_loop e v kw risk tname st [] = Inr st"
| "icmp_type_loop e v kw risk tname (refs, apps, pan) (tn # tns) =
     (case ICMP_TYPE e v tn of
        None \<Rightarrow> Inl (PaloAltoFWBadIcmpTypeError tname tn)
      | Some code \<Rightarrow>
          if dict_has refs (icmp_app_name v tn)
          then icmp_type_loop e v kw risk tname (refs, apps, pan) tns
          else icmp_type_loop e v kw risk tname
                 (dict_set refs (icmp_app_name v tn) (make_app_entry (icmp_app_name v tn) kw code risk),
                  apps @ [icmp_app_name v tn],
                  if icmp_app_name v tn \<notin> set pan then pan @ [icmp_app_name v tn] else pan)
                 tns)"

text \<open>One round of \<^verbatim>\<open>for icmp_version in ["icmp", "icmpv6"]\<close>, past the
  \<^verbatim>\<open>break\<close> test.\<close>

definition icmp_version_step ::
  "env \<Rightarrow> string \<Rightarrow> string list \<Rightarrow> string \<Rightarrow> string list \<Rightarrow> string \<Rightarrow> icmp_state
     \<Rightarrow> error + icmp_state" where
  "icmp_version_step e filter_type flows tname types icmp_version st =
     (case st of (refs, apps, pan) \<Rightarrow>
      if icmp_version = ''icmp'' \<and> ''ip4-ip4'' \<notin> set flows then Inr st
      else if icmp_version = ''icmpv6'' \<and> ''ip6-ip6'' \<notin> set flows then Inr st
      else if icmp_version = ''icmp'' then
        (if filter_type = ''inet6'' then Inr st
         else if types = [] then Inr (refs, apps, pan @ [''icmp''])
         else icmp_type_loop e IPv4 ''ident-by-icmp-type'' 4 tname st types)
      else
        (if filter_type = ''inet'' then Inr st
         else if types = [] then Inr (refs, apps, pan @ [''ipv6-icmp''])
         else icmp_type_loop e IPv6 ''ident-by-icmp6-type'' 2 tname st types))"

definition handle_icmp ::
  "env \<Rightarrow> string \<Rightarrow> string list \<Rightarrow> string \<Rightarrow> string list \<Rightarrow> string list \<Rightarrow> icmp_state
     \<Rightarrow> error + icmp_state" where
  "handle_icmp e filter_type flows tname protos types st =
     (if ''icmp'' \<notin> set protos \<and> ''icmpv6'' \<notin> set protos then Inr st
      else case icmp_version_step e filter_type flows tname types ''icmp'' st of
             Inl err \<Rightarrow> Inl err
           | Inr st' \<Rightarrow> icmp_version_step e filter_type flows tname types ''icmpv6'' st')"

subsection \<open>\<^verbatim>\<open>_TranslatePolicy\<close>: one term\<close>

text \<open>The three \<^verbatim>\<open>continue\<close>s ahead of the length fix: the stateless-reply test and
  the two tests on \<^verbatim>\<open>term.option\<close>.\<close>

definition early_skip :: "pterm \<Rightarrow> log_event option" where
  "early_skip t =
     (if stateless_reply t then Some (WarnStatelessReply (name t))
      else if ''established'' \<in> set (option t) then Some (WarnEstablished (name t))
      else if ''tcp-established'' \<in> set (option t) then Some (WarnTcpEstablished (name t))
      else None)"

text \<open>The two loops over the exclude lists.\<close>

definition subtract_excludes :: "env \<Rightarrow> pterm \<Rightarrow> pterm" where
  "subtract_excludes e t =
     t\<lparr> source_address := foldl (RemoveAddressFromList e) (source_address t) (source_address_exclude t),
        destination_address :=
          foldl (RemoveAddressFromList e) (destination_address t) (destination_address_exclude t) \<rparr>"

text \<open>
  The body of \<^verbatim>\<open>for term in terms\<close>, from the exclude loops to the end: the term has
  its final name and is not expired. The result holds the generator, the term as the
  body leaves it, and whether the term was appended to \<^verbatim>\<open>new_terms\<close>.
\<close>

definition translate_addresses ::
  "env \<Rightarrow> string \<Rightarrow> pafw \<Rightarrow> pterm \<Rightarrow> error + (pafw \<times> pterm \<times> bool)" where
  "translate_addresses e filter_type st t0 =
     (let t = subtract_excludes e t0;
          flows = compute_flows (source_address t) (destination_address t)
      in case af_gate filter_type (name t) (protocol t) flows of
           Drop w \<Rightarrow> Inr (st\<lparr> log := log st @ [w] \<rparr>, t, False)
         | Keep excl ws \<Rightarrow>
             let book1 = build_addresses excl (from_zone st) (addressbook st) (source_address t);
                 book2 = build_addresses excl (to_zone st) book1 (destination_address t);
                 st1 = st\<lparr> log := log st @ ws, addressbook := book2 \<rparr>
             in if icmp_type t \<noteq> [] \<and> (''icmp'' \<notin> set (protocol t) \<and> ''icmpv6'' \<notin> set (protocol t))
                then Inl UnsupportedFilterError
                else case handle_icmp e filter_type flows (name t) (protocol t) (icmp_type t)
                            (application_refs st1, applications st1, pan_application t) of
                       Inl err \<Rightarrow> Inl err
                     | Inr (refs, apps, pan) \<Rightarrow>
                         (case filter (\<lambda>p. p \<notin> set SUPPORTED_PROTO_NAMES) (protocol t) of
                            p # _ \<Rightarrow> Inl (PaloAltoFWUnsupportedProtocolError p)
                          | [] \<Rightarrow>
                              Inr (st1\<lparr> application_refs := refs, applications := apps \<rparr>,
                                   t\<lparr> pan_application := pan \<rparr>, True)))"

text \<open>The whole body of \<^verbatim>\<open>for term in terms\<close>; \<open>dup\<close> is \<^verbatim>\<open>term_dup_check\<close>.\<close>

definition translate_term ::
  "env \<Rightarrow> string \<Rightarrow> pafw \<Rightarrow> string list \<Rightarrow> pterm
     \<Rightarrow> error + (pafw \<times> string list \<times> pterm \<times> bool)" where
  "translate_term e filter_type st dup t =
     (case early_skip t of
        Some w \<Rightarrow> Inr (st\<lparr> log := log st @ [w] \<rparr>, dup, t, False)
      | None \<Rightarrow>
          (case FixTermLength e (name t) of
             None \<Rightarrow> Inl (TermNameTooLongError (name t))
           | Some n \<Rightarrow>
               if n \<in> set dup then Inl (PaloAltoFWDuplicateTermError n)
               else
                 let t1 = t\<lparr> name := n \<rparr>; dup1 = dup @ [n] in
                 case expiration t1 of
                   None \<Rightarrow>
                     (case translate_addresses e filter_type st t1 of
                        Inl err \<Rightarrow> Inl err
                      | Inr (st', t', kept) \<Rightarrow> Inr (st', dup1, t', kept))
                 | Some d \<Rightarrow>
                     let st1 = (if d \<le> current_date e + 7 * exp_info e
                                then st\<lparr> log := log st @ [InfoExpiresSoon n] \<rparr> else st)
                     in if d \<le> current_date e
                        then Inr (st1\<lparr> log := log st1 @ [WarnExpired n] \<rparr>, dup1, t1, False)
                        else (case translate_addresses e filter_type st1 t1 of
                                Inl err \<Rightarrow> Inl err
                              | Inr (st', t', kept) \<Rightarrow> Inr (st', dup1, t', kept))))"

text \<open>\<^verbatim>\<open>for term in terms\<close>: the result holds the generator, \<^verbatim>\<open>term_dup_check\<close>, the
  caller's terms as the loop leaves them, and \<^verbatim>\<open>new_terms\<close>.\<close>

fun translate_terms ::
  "env \<Rightarrow> string \<Rightarrow> pafw \<Rightarrow> string list \<Rightarrow> pterm list
     \<Rightarrow> error + (pafw \<times> string list \<times> pterm list \<times> pterm list)" where
  "translate_terms e filter_type st dup [] = Inr (st, dup, [], [])"
| "translate_terms e filter_type st dup (t # ts) =
     (case translate_term e filter_type st dup t of
        Inl err \<Rightarrow> Inl err
      | Inr (st1, dup1, t', kept) \<Rightarrow>
          (case translate_terms e filter_type st1 dup1 ts of
             Inl err \<Rightarrow> Inl err
           | Inr (st2, dup2, ts', new_terms) \<Rightarrow>
               Inr (st2, dup2, t' # ts', if kept then t' # new_terms else new_terms)))"

text \<open>\<^verbatim>\<open>for term in new_terms\<close>: one \<^verbatim>\<open>Rule\<close> per term, stored under the term's name.\<close>

fun build_ruleset ::
  "string \<Rightarrow> string \<Rightarrow> service_map \<Rightarrow> ruleset \<Rightarrow> pterm list \<Rightarrow> error + (ruleset \<times> service_map)" where
  "build_ruleset fz tz smap rs [] = Inr (rs, smap)"
| "build_ruleset fz tz smap rs (t # ts) =
     (case Rule smap fz tz t of
        Inl err \<Rightarrow> Inl err
      | Inr (opts, smap') \<Rightarrow> build_ruleset fz tz smap' (dict_set rs (name t) opts) ts)"

subsection \<open>\<^verbatim>\<open>_TranslatePolicy\<close>: headers and the policy\<close>

definition PLATFORM :: string where
  "PLATFORM = ''paloalto''"

text \<open>The address-family mode of a header: the fifth filter option, \<^verbatim>\<open>inet\<close> when
  there is none.\<close>

definition header_filter_type :: "string list \<Rightarrow> string" where
  "header_filter_type fo = (if length fo > 4 then fo ! 4 else ''inet'')"

text \<open>The body of \<^verbatim>\<open>for header, terms in pol.filters\<close>; the terms come back as the
  pass leaves them.\<close>

definition translate_header ::
  "env \<Rightarrow> pafw \<Rightarrow> header \<times> pterm list \<Rightarrow> error + (pafw \<times> pterm list)" where
  "translate_header e st ht =
     (case ht of (h, terms) \<Rightarrow>
      if PLATFORM \<notin> set (platforms h) then Inr (st, terms)
      else
        let fo = FilterOptions h in
        if length fo < 4 \<or> fo ! 0 \<noteq> ''from-zone'' \<or> fo ! 2 \<noteq> ''to-zone''
        then Inl UnsupportedFilterError
        else
          let st1 = st\<lparr> from_zone := fo ! 1, to_zone := fo ! 3 \<rparr>;
              filter_type = header_filter_type fo
          in if filter_type \<notin> set SUPPORTED_AF then Inl (UnsupportedHeaderError filter_type)
             else case translate_terms e filter_type st1 [] terms of
                    Inl err \<Rightarrow> Inl err
                  | Inr (st2, dup, terms', new_terms) \<Rightarrow>
                      (case build_ruleset (from_zone st2) (to_zone st2) (services st2) [] new_terms of
                         Inl err \<Rightarrow> Inl err
                       | Inr (rs, smap) \<Rightarrow>
                           Inr (st2\<lparr> services := smap,
                                     pafw_policies := pafw_policies st2 @ [(h, rs, fo)] \<rparr>,
                                terms')))"

fun TranslatePolicy ::
  "env \<Rightarrow> pafw \<Rightarrow> (header \<times> pterm list) list \<Rightarrow> error + (pafw \<times> (header \<times> pterm list) list)" where
  "TranslatePolicy e st [] = Inr (st, [])"
| "TranslatePolicy e st (ht # rest) =
     (case translate_header e st ht of
        Inl err \<Rightarrow> Inl err
      | Inr (st1, terms') \<Rightarrow>
          (case TranslatePolicy e st1 rest of
             Inl err \<Rightarrow> Inl err
           | Inr (st2, rest') \<Rightarrow> Inr (st2, (fst ht, terms') # rest')))"

text \<open>\<^verbatim>\<open>PaloAltoFW.__init__\<close>: a fresh generator; the class-level service map is
  whatever earlier generators of the process left.\<close>

definition new_pafw :: "service_map \<Rightarrow> pafw" where
  "new_pafw smap =
     \<lparr> pafw_policies = [], addressbook = [], applications = [], application_refs = [],
       from_zone = [], to_zone = [], services = smap, log = [] \<rparr>"

subsection \<open>\<^verbatim>\<open>__str__\<close>: the rules\<close>

definition INDENT :: string where
  "INDENT = ''  ''"

definition indent :: "nat \<Rightarrow> string" where
  "indent n = concat (replicate n INDENT)"

definition dquote :: string where
  "dquote = [CHR 0x22]"

definition member_line :: "string \<Rightarrow> string" where
  "member_line s = indent 10 @ ''<member>'' @ s @ ''</member>''"

text \<open>\<^verbatim>\<open>Term.ACTIONS\<close>.\<close>

definition ACTIONS :: "(string \<times> string) list" where
  "ACTIONS = [(''accept'', ''allow''), (''deny'', ''deny''), (''reject'', ''reset-client''),
              (''reject-with-tcp-rst'', ''reset-client'')]"

definition MAX_RULE_DESCRIPTION_LENGTH :: nat where
  "MAX_RULE_DESCRIPTION_LENGTH = 1024"

text \<open>The members of the \<^verbatim>\<open><source>\<close> and of the \<^verbatim>\<open><destination>\<close> element.\<close>

definition address_members :: "string list \<Rightarrow> string list" where
  "address_members xs = (if xs = [] then [''any''] else xs)"

text \<open>The \<^verbatim>\<open># LOGGING\<close> block of a rule entry.\<close>

definition render_logging :: "string list \<Rightarrow> string list" where
  "render_logging lg =
     (if lg \<noteq> [] then
        (if ''disable'' \<in> set lg
         then [indent 9 @ ''<log-start>no</log-start>'', indent 9 @ ''<log-end>no</log-end>'']
         else [])
        @ (if ''log-start'' \<in> set lg then [indent 9 @ ''<log-start>yes</log-start>''] else [])
        @ (if ''log-end'' \<in> set lg then [indent 9 @ ''<log-end>yes</log-end>''] else [])
      else [])"

text \<open>One round of \<^verbatim>\<open>for name, options in pa_rules.items()\<close>: the lines of one entry.
  A missing action is a \<^verbatim>\<open>KeyError\<close>, an action outside the table a
  \<^verbatim>\<open>TypeError\<close> (\<^verbatim>\<open>None\<close> in a string sum).\<close>

definition render_rule :: "string \<Rightarrow> rule_options \<Rightarrow> error + string list" where
  "render_rule rname options =
     (case opt_action options of
        None \<Rightarrow> Inl PyKeyError
      | Some a \<Rightarrow>
          (case map_of ACTIONS a of
             None \<Rightarrow> Inl PyTypeError
           | Some act \<Rightarrow>
               Inr ([indent 8 @ ''<entry name='' @ dquote @ rname @ dquote @ ''>'']
                 @ (if opt_description options \<noteq> []
                    then [indent 9 @ ''<description>''
                            @ take MAX_RULE_DESCRIPTION_LENGTH (join '' '' (opt_description options))
                            @ ''</description>'']
                    else [])
                 @ [indent 9 @ ''<to>''] @ map member_line (opt_to_zone options) @ [indent 9 @ ''</to>'']
                 @ [indent 9 @ ''<from>''] @ map member_line (opt_from_zone options)
                 @ [indent 9 @ ''</from>'']
                 @ [indent 9 @ ''<source>'']
                 @ map member_line (address_members (opt_source options))
                 @ [indent 9 @ ''</source>'']
                 @ [indent 9 @ ''<destination>'']
                 @ map member_line (address_members (opt_destination options))
                 @ [indent 9 @ ''</destination>'']
                 @ [indent 9 @ ''<service>'']
                 @ (if opt_service options = [] \<and> opt_application options = []
                    then [member_line ''any'']
                    else if opt_service options = [] \<and> opt_application options \<noteq> []
                    then [member_line ''application-default'']
                    else map member_line (opt_service options))
                 @ [indent 9 @ ''</service>'']
                 @ [indent 9 @ ''<action>'' @ act @ ''</action>'']
                 @ (if filter (\<lambda>z. z \<notin> set (opt_to_zone options)) (opt_from_zone options) \<noteq> []
                    then [indent 9 @ ''<rule-type>interzone</rule-type>'']
                    else if opt_from_zone options = [] \<and> opt_to_zone options = []
                    then [indent 9 @ ''<rule-type>interzone</rule-type>'']
                    else [])
                 @ [indent 9 @ ''<application>'']
                 @ (if opt_application options = [] then [member_line ''any'']
                    else map member_line (opt_application options))
                 @ [indent 9 @ ''</application>'']
                 @ render_logging (opt_logging options)
                 @ [indent 8 @ ''</entry>''])))"

fun render_entries :: "ruleset \<Rightarrow> error + string list" where
  "render_entries [] = Inr []"
| "render_entries ((rname, options) # rs) =
     (case render_rule rname options of
        Inl err \<Rightarrow> Inl err
      | Inr ls \<Rightarrow> (case render_entries rs of Inl err \<Rightarrow> Inl err | Inr ls' \<Rightarrow> Inr (ls @ ls')))"

text \<open>The names of the rule entries of the document, in order: the keys of every
  rule set of \<^verbatim>\<open>self.pafw_policies\<close>.\<close>

definition rule_names :: "pafw \<Rightarrow> string list" where
  "rule_names st = concat (map (\<lambda>p. map fst (fst (snd p))) (pafw_policies st))"

definition render_rules :: "pafw \<Rightarrow> error + string list" where
  "render_rules st =
     (case render_entries (concat (map (\<lambda>p. fst (snd p)) (pafw_policies st))) of
        Inl err \<Rightarrow> Inl err
      | Inr ls \<Rightarrow>
          Inr ([indent 5 @ ''<!-- Rules -->'', indent 5 @ ''<rulebase>'', indent 6 @ ''<security>'',
                indent 7 @ ''<rules>'']
               @ ls
               @ [indent 7 @ ''</rules>'', indent 6 @ ''</security>'', indent 5 @ ''</rulebase>'']))"

subsection \<open>\<^verbatim>\<open>__str__\<close>: the services\<close>







subsection \<open>\<^verbatim>\<open>__str__\<close>: the addresses\<close>

text \<open>\<^verbatim>\<open>for address, name in self.addressbook[zone][group]\<close>, on
  \<^verbatim>\<open>address_book_names_dict\<close>.\<close>

fun names_loop :: "(string \<times> addr) list \<Rightarrow> (addr \<times> string) list \<Rightarrow> (string \<times> addr) list" where
  "names_loop d [] = d"
| "names_loop d ((address, n) # rest) =
     (case dict_get d n of
        Some old \<Rightarrow>
          if supernet_of old address then names_loop d rest
          else names_loop (dict_set d n address) rest
      | None \<Rightarrow> names_loop (dict_set d n address) rest)"

text \<open>\<^verbatim>\<open>for group in groups\<close> with \<^verbatim>\<open>groups = sorted(self.addressbook[zone])\<close>.\<close>

definition zone_names ::
  "(string \<times> addr) list \<Rightarrow> (string \<times> (addr \<times> string) list) list \<Rightarrow> (string \<times> addr) list" where
  "zone_names d zb =
     foldl (\<lambda>d' group. names_loop d' (case dict_get zb group of Some b \<Rightarrow> b | None \<Rightarrow> []))
       d (sort (map fst zb))"

text \<open>\<^verbatim>\<open>address_book_names_dict\<close> after \<^verbatim>\<open>for zone in self.addressbook\<close>.\<close>

definition address_book_names :: "address_book \<Rightarrow> (string \<times> addr) list" where
  "address_book_names book = foldl (\<lambda>d zone. zone_names d (snd zone)) [] book"

text \<open>\<^verbatim>\<open>item.split("_")\<close>.\<close>

fun split_on :: "char \<Rightarrow> string \<Rightarrow> string list" where
  "split_on c [] = [[]]"
| "split_on c (x # xs) =
     (if x = c then [] # split_on c xs
      else (case split_on c xs of p # ps \<Rightarrow> (x # p) # ps | [] \<Rightarrow> [[x]]))"

text \<open>\<^verbatim>\<open>int(num)\<close>: surrounding whitespace is dropped, a sign may come first, and the
  rest must be decimal digits (ASCII; the pieces of a split on \<^verbatim>\<open>_\<close> hold no
  underscore); anything else is a \<^verbatim>\<open>ValueError\<close>.\<close>

definition is_space :: "char \<Rightarrow> bool" where
  "is_space c = (c \<in> set [CHR '' '', CHR 0x09, CHR 0x0A, CHR 0x0B, CHR 0x0C, CHR 0x0D])"

definition strip :: "string \<Rightarrow> string" where
  "strip s = rev (dropWhile is_space (rev (dropWhile is_space s)))"

definition digits_value :: "string \<Rightarrow> int option" where
  "digits_value ds =
     (if ds \<noteq> [] \<and> list_all (\<lambda>c. c \<in> set ''0123456789'') ds
      then Some (foldl (\<lambda>acc c. 10 * acc + (of_char c - 48)) 0 ds)
      else None)"

definition py_int :: "string \<Rightarrow> int option" where
  "py_int s =
     (case strip s of
        [] \<Rightarrow> None
      | c # cs \<Rightarrow>
          if c = CHR ''-'' then map_option uminus (digits_value cs)
          else if c = CHR ''+'' then digits_value cs
          else digits_value (c # cs))"

text \<open>\<^verbatim>\<open>_SortAddressBookNumCheck\<close>; the \<^verbatim>\<open>isinstance(item_list[-1], int)\<close> test is
  false on strings and raises on an empty list.\<close>

definition SortAddressBookNumCheck :: "string \<Rightarrow> error + (string \<times> int)" where
  "SortAddressBookNumCheck item =
     (let item_list = split_on CHR ''_'' item;
          num = last item_list;
          rest = butlast item_list
      in if rest = [] then Inl PyIndexError
         else if num \<noteq> [] then
           (case py_int num of
              None \<Rightarrow> Inl PyValueError
            | Some i \<Rightarrow> Inr (join ''_'' rest, i))
         else Inr (join ''_'' rest, 0))"

fun sort_keys :: "string list \<Rightarrow> error + ((string \<times> int) \<times> string) list" where
  "sort_keys [] = Inr []"
| "sort_keys (n # ns) =
     (case SortAddressBookNumCheck n of
        Inl err \<Rightarrow> Inl err
      | Inr k \<Rightarrow> (case sort_keys ns of Inl err \<Rightarrow> Inl err | Inr ks \<Rightarrow> Inr ((k, n) # ks)))"

text \<open>\<^verbatim>\<open>address_book_keys\<close>.\<close>

definition address_book_keys :: "(string \<times> addr) list \<Rightarrow> error + string list" where
  "address_book_keys d =
     (case sort_keys (map fst d) of
        Inl err \<Rightarrow> Inl err
      | Inr ks \<Rightarrow> Inr (map snd (sort_key fst ks)))"

definition address_entry_line :: "string \<Rightarrow> string" where
  "address_entry_line n = indent 6 @ ''<entry name='' @ dquote @ n @ dquote @ ''>''"

definition render_address :: "(string \<times> addr) list \<Rightarrow> string \<Rightarrow> string list" where
  "render_address d n =
     [address_entry_line n,
      indent 7 @ ''<description>'' @ n @ ''</description>'',
      indent 7 @ ''<ip-netmask>''
        @ (case dict_get d n of Some a \<Rightarrow> str_form a | None \<Rightarrow> []) @ ''</ip-netmask>'',
      indent 6 @ ''</entry>'']"

text \<open>The \<^verbatim>\<open><address>\<close> section: the entries, one list of lines per name.\<close>

definition address_entries :: "address_book \<Rightarrow> error + string list list" where
  "address_entries book =
     (let d = address_book_names book in
      case address_book_keys d of
        Inl err \<Rightarrow> Inl err
      | Inr ks \<Rightarrow> Inr (map (render_address d) ks))"

definition render_addresses :: "address_book \<Rightarrow> error + string list" where
  "render_addresses book =
     (case address_entries book of
        Inl err \<Rightarrow> Inl err
      | Inr es \<Rightarrow>
          Inr ([indent 5 @ ''<!-- Addresses -->'', indent 5 @ ''<address>''] @ concat es
               @ [indent 5 @ ''</address>'']))"

subsection \<open>What the pass may change in a term\<close>

text \<open>The application names the ICMP block can append to \<^verbatim>\<open>term.pan_application\<close>
  for a term with the given ICMP type names.\<close>

definition icmp_names :: "string list \<Rightarrow> string set" where
  "icmp_names types =
     {''icmp'', ''ipv6-icmp''} \<union> (\<lambda>tn. ''icmp-'' @ tn) ` set types \<union> (\<lambda>tn. ''icmp6-'' @ tn) ` set types"

text \<open>
  \<open>frame e t t'\<close>: \<open>t'\<close> is \<open>t\<close> but for the name, which may be the fixed one, the
  two address lists, which may be the ones with the exclusions subtracted, and
  \<^verbatim>\<open>pan_application\<close>, which may have ICMP application names appended (none, when the
  protocols hold neither \<^verbatim>\<open>icmp\<close> nor \<^verbatim>\<open>icmpv6\<close>).
\<close>

definition frame :: "env \<Rightarrow> pterm \<Rightarrow> pterm \<Rightarrow> bool" where
  "frame e t t' =
     (\<exists>extra.
        t' = t\<lparr> name := name t', source_address := source_address t',
                destination_address := destination_address t',
                pan_application := pan_application t @ extra \<rparr>
      \<and> (name t' = name t \<or> FixTermLength e (name t) = Some (name t'))
      \<and> (source_address t' = source_address t
           \<or> source_address t'
               = foldl (RemoveAddressFromList e) (source_address t) (source_address_exclude t))
      \<and> (destination_address t' = destination_address t
           \<or> destination_address t'
               = foldl (RemoveAddressFromList e) (destination_address t)
                   (destination_address_exclude t))
      \<and> set extra \<subseteq> icmp_names (icmp_type t)
      \<and> (''icmp'' \<notin> set (protocol t) \<and> ''icmpv6'' \<notin> set (protocol t) \<longrightarrow> extra = []))"

subsection \<open>Example inputs\<close>

text \<open>
  Modelled from the spec: \<^verbatim>\<open>aclgenerator.ACLGenerator.FixTermLength\<close> is not under
  src/. The spec calls the term name length-capped and the fix idempotent; with
  \<^verbatim>\<open>_TERM_MAX_LENGTH = 31\<close> it is taken as the cut of the name at 31 characters.
\<close>

definition FixTermLength_spec :: "string \<Rightarrow> string option" where
  "FixTermLength_spec s = Some (take TERM_MAX_LENGTH s)"

text \<open>An environment for the collaborators: that length fix, an exclusion that removes
  the addresses of the same string form, a small ICMP type table, a date.\<close>

definition example_env :: env where
  "example_env =
     \<lparr> FixTermLength = FixTermLength_spec,
       RemoveAddressFromList = (\<lambda>xs x. filter (\<lambda>a. str_form a \<noteq> str_form x) xs),
       ICMP_TYPE = (\<lambda>v. case v of
                      IPv4 \<Rightarrow> map_of [(''echo-reply'', 0), (''echo-request'', 8)]
                    | IPv6 \<Rightarrow> map_of [(''echo-request'', 128), (''echo-reply'', 129)]),
       current_date = 739000, exp_info = 2 \<rparr>"

text \<open>The networks 10.0.0.0/8, 10.1.0.0/16 (a strict subnet of the first, under the same
  token) and 2001:4860:8000::/33.\<close>

definition net10 :: addr where
  "net10 = \<lparr> version = IPv4, parent_token = ''INTERNAL'', str_form = ''10.0.0.0/8'',
             first_ip = 167772160, last_ip = 184549375 \<rparr>"

definition net10_1 :: addr where
  "net10_1 = \<lparr> version = IPv4, parent_token = ''INTERNAL'', str_form = ''10.1.0.0/16'',
               first_ip = 167837696, last_ip = 167903231 \<rparr>"

definition net6 :: addr where
  "net6 = \<lparr> version = IPv6, parent_token = ''GOOGLE6'', str_form = ''2001:4860:8000::/33'',
            first_ip = 42541956140984988307329458404384047104,
            last_ip = 42541956180599069564461627201156022271 \<rparr>"

text \<open>A term with a name and an action and nothing else.\<close>

definition empty_term :: pterm where
  "empty_term =
     \<lparr> name = ''t'', comment = [], source_address = [], destination_address = [],
       source_address_exclude = [], destination_address_exclude = [], protocol = [],
       destination_port = [], pan_application = [], icmp_type = [], action = [''accept''],
       option = [], logging = [], expiration = None, stateless_reply = False \<rparr>"

text \<open>Headers for the platform: from \<^verbatim>\<open>trust\<close> to \<^verbatim>\<open>untrust\<close> (mode \<^verbatim>\<open>inet\<close> by
  default), the other way round, and from \<^verbatim>\<open>trust\<close> to \<^verbatim>\<open>untrust\<close> in mode
  \<^verbatim>\<open>mixed\<close>.\<close>

definition header_out :: header where
  "header_out = \<lparr> platforms = [''paloalto''],
                   FilterOptions = [''from-zone'', ''trust'', ''to-zone'', ''untrust''] \<rparr>"


definition header_mixed :: header where
  "header_mixed = \<lparr> platforms = [''paloalto''],
                     FilterOptions = [''from-zone'', ''trust'', ''to-zone'', ''untrust'', ''mixed''] \<rparr>"


text \<open>An ICMP term for the type \<^verbatim>\<open>echo-request\<close>.\<close>

definition ping_term :: "string \<Rightarrow> pterm" where
  "ping_term n = empty_term\<lparr> name := n, protocol := [''icmp''], icmp_type := [''echo-request''] \<rparr>"

section \<open>Properties\<close>

subsection \<open>Dictionaries\<close>

lemma dict_set_absent: "\<not> dict_has d k \<Longrightarrow> dict_set d k v = d @ [(k, v)]"
  by (induction d) (auto simp: dict_has_def)

subsection \<open>The service registry\<close>

text \<open>
  Claim C5. A service registered for a key the registry does not hold is named
  \<^verbatim>\<open>"service-" + term_name + "-" + protocol\<close>. When an entry (of another key, then)
  already has that name, the registration fails with the duplicate-service error;
  otherwise, when the name is longer than 63 characters, it fails with the
  name-too-long error; otherwise it succeeds, the new entry last in the registry.
\<close>

theorem Service_new_key:
  assumes "\<not> dict_has smap (ports, proto)"
  shows "final_service_name tname proto = ''service-'' @ tname @ ''-'' @ proto \<and>
     Service smap ports tname proto =
       (if final_service_name tname proto \<in> set (map snd smap)
        then Inl (PaloAltoFWDuplicateServiceError (final_service_name tname proto))
        else if length (final_service_name tname proto) > 63
        then Inl (PaloAltoFWNameTooLongError (final_service_name tname proto))
        else Inr (smap @ [((ports, proto), final_service_name tname proto)]))"
  using assms by (simp add: Service_def Let_def dict_set_absent final_service_name_def)

theorem Service_new_key_witness:
  "\<not> dict_has [(([''80''], ''tcp''), ''service-a-tcp'')] ([''443''], ''tcp'') \<and>
   Service [(([''80''], ''tcp''), ''service-a-tcp'')] [''443''] ''b'' ''tcp''
     = Inr [(([''80''], ''tcp''), ''service-a-tcp''), (([''443''], ''tcp''), ''service-b-tcp'')]"
  using Service_new_key [of "[(([''80''], ''tcp''), ''service-a-tcp'')]" "[''443'']" "''tcp''" "''b''"]
  by (simp add: dict_has_def final_service_name_def)

subsection \<open>Logging\<close>

text \<open>The directives that turn the end-of-session log on.\<close>

definition end_words :: "string set" where
  "end_words = {''True'', ''true'', ''syslog'', ''local''}"

text \<open>The loop, one item at a time.\<close>

lemma logging_loop_Cons:
  "logging_loop acc (item # items) =
     (if item = ''disable'' then [''disable'']
      else if item = ''log-both'' then logging_loop (acc @ [''log-start'', ''log-end'']) items
      else if item \<in> end_words then logging_loop (acc @ [''log-end'']) items
      else logging_loop acc items)"
  by (simp add: end_words_def)

lemma logging_loop_disable:
  "''disable'' \<in> set lg \<Longrightarrow> logging_loop acc lg = [''disable'']"
proof (induction lg arbitrary: acc)
  case Nil
  then show ?case by simp
next
  case (Cons item items)
  show ?case
  proof (cases "item = ''disable''")
    case True
    then show ?thesis by (simp add: logging_loop_Cons del: logging_loop.simps)
  next
    case False
    with Cons.prems have "''disable'' \<in> set items" by (metis set_ConsD)
    then have "\<And>acc. logging_loop acc items = [''disable'']" by (rule Cons.IH)
    then show ?thesis using False by (simp add: logging_loop_Cons del: logging_loop.simps)
  qed
qed

lemma end_words_not: "''disable'' \<notin> end_words" "''log-both'' \<notin> end_words"
  by (simp_all add: end_words_def)

lemma logging_loop_no_disable:
  "''disable'' \<notin> set lg \<Longrightarrow> ''disable'' \<notin> set acc \<Longrightarrow> ''disable'' \<notin> set (logging_loop acc lg)"
proof (induction lg arbitrary: acc)
  case Nil
  then show ?case by simp
next
  case (Cons item items)
  from Cons.prems have ne: "item \<noteq> ''disable''" and rest: "''disable'' \<notin> set items" by auto
  have a1: "''disable'' \<notin> set (acc @ [''log-start'', ''log-end''])" using Cons.prems(2) by simp
  have a2: "''disable'' \<notin> set (acc @ [''log-end''])" using Cons.prems(2) by simp
  show ?case
    unfolding logging_loop_Cons
    using ne Cons.IH [OF rest a1] Cons.IH [OF rest a2] Cons.IH [OF rest Cons.prems(2)]
    by (simp del: logging_loop.simps)
qed

lemma logging_loop_log_start:
  "''disable'' \<notin> set lg \<Longrightarrow> set lg \<inter> {''log-both''} = {} \<Longrightarrow>
   (''log-start'' \<in> set (logging_loop acc lg)) = (''log-start'' \<in> set acc)"
proof (induction lg arbitrary: acc)
  case Nil
  then show ?case by simp
next
  case (Cons item items)
  from Cons.prems have ne: "item \<noteq> ''disable''" "item \<noteq> ''log-both''"
    and rest: "''disable'' \<notin> set items" "set items \<inter> {''log-both''} = {}" by auto
  have a2: "(''log-start'' \<in> set (acc @ [''log-end''])) = (''log-start'' \<in> set acc)" by simp
  show ?case
    unfolding logging_loop_Cons
    using ne Cons.IH [OF rest, of "acc @ [''log-end'']"] Cons.IH [OF rest, of acc] a2
    by (simp del: logging_loop.simps)
qed

lemma logging_loop_mono:
  "''disable'' \<notin> set lg \<Longrightarrow> set acc \<subseteq> set (logging_loop acc lg)"
proof (induction lg arbitrary: acc)
  case Nil
  then show ?case by simp
next
  case (Cons item items)
  from Cons.prems have ne: "item \<noteq> ''disable''" and rest: "''disable'' \<notin> set items" by auto
  have "set acc \<subseteq> set (acc @ [''log-start'', ''log-end''])" "set acc \<subseteq> set (acc @ [''log-end''])"
    by auto
  then show ?case
    unfolding logging_loop_Cons
    using ne Cons.IH [OF rest, of "acc @ [''log-start'', ''log-end'']"]
      Cons.IH [OF rest, of "acc @ [''log-end'']"] Cons.IH [OF rest, of acc]
    by (auto simp del: logging_loop.simps)
qed

lemma logging_loop_both:
  "''disable'' \<notin> set lg \<Longrightarrow> ''log-both'' \<in> set lg \<Longrightarrow>
   ''log-start'' \<in> set (logging_loop acc lg) \<and> ''log-end'' \<in> set (logging_loop acc lg)"
proof (induction lg arbitrary: acc)
  case Nil
  then show ?case by simp
next
  case (Cons item items)
  from Cons.prems have ne: "item \<noteq> ''disable''" and rest: "''disable'' \<notin> set items" by auto
  show ?case
  proof (cases "item = ''log-both''")
    case True
    have "set (acc @ [''log-start'', ''log-end'']) \<subseteq> set (logging_loop (acc @ [''log-start'', ''log-end'']) items)"
      using rest by (rule logging_loop_mono)
    then have "''log-start'' \<in> set (logging_loop (acc @ [''log-start'', ''log-end'']) items)"
      "''log-end'' \<in> set (logging_loop (acc @ [''log-start'', ''log-end'']) items)" by auto
    then show ?thesis unfolding logging_loop_Cons using True ne by (simp del: logging_loop.simps)
  next
    case False
    with Cons.prems have "''log-both'' \<in> set items" by auto
    then show ?thesis
      unfolding logging_loop_Cons
      using ne False Cons.IH [OF rest, of "acc @ [''log-end'']"] Cons.IH [OF rest, of acc]
      by (simp del: logging_loop.simps)
  qed
qed

lemma logging_loop_end:
  "''disable'' \<notin> set lg \<Longrightarrow> set lg \<inter> end_words \<noteq> {} \<Longrightarrow>
   ''log-end'' \<in> set (logging_loop acc lg)"
proof (induction lg arbitrary: acc)
  case Nil
  then show ?case by simp
next
  case (Cons item items)
  from Cons.prems have ne: "item \<noteq> ''disable''" and rest: "''disable'' \<notin> set items" by auto
  have m1: "''log-end'' \<in> set (logging_loop (acc @ [''log-start'', ''log-end'']) items)"
    using logging_loop_mono [OF rest, of "acc @ [''log-start'', ''log-end'']"] by auto
  have m2: "''log-end'' \<in> set (logging_loop (acc @ [''log-end'']) items)"
    using logging_loop_mono [OF rest, of "acc @ [''log-end'']"] by auto
  show ?case
  proof (cases "item \<in> end_words \<or> item = ''log-both''")
    case True
    then show ?thesis unfolding logging_loop_Cons using ne m1 m2 by (auto simp del: logging_loop.simps)
  next
    case False
    with Cons.prems have "set items \<inter> end_words \<noteq> {}" by auto
    then show ?thesis
      unfolding logging_loop_Cons
      using ne False Cons.IH [OF rest, of acc]
      by (simp del: logging_loop.simps)
  qed
qed

lemma render_logging_disable:
  "render_logging [''disable'']
     = [indent 9 @ ''<log-start>no</log-start>'', indent 9 @ ''<log-end>no</log-end>'']"
  by (simp add: render_logging_def)

lemma render_logging_both:
  assumes "''disable'' \<notin> set l" and "''log-start'' \<in> set l" and "''log-end'' \<in> set l"
  shows "render_logging l
     = [indent 9 @ ''<log-start>yes</log-start>'', indent 9 @ ''<log-end>yes</log-end>'']"
proof -
  from assms(2) have "l \<noteq> []" by (cases l) simp_all
  then show ?thesis using assms by (simp add: render_logging_def)
qed

lemma render_logging_end:
  assumes "''disable'' \<notin> set l" and "''log-start'' \<notin> set l" and "''log-end'' \<in> set l"
  shows "render_logging l = [indent 9 @ ''<log-end>yes</log-end>'']"
proof -
  from assms(3) have "l \<noteq> []" by (cases l) simp_all
  then show ?thesis using assms by (simp add: render_logging_def)
qed

lemma render_rule_logging_block:
  "render_rule rn opts = Inr ls \<Longrightarrow>
   \<exists>pre. ls = pre @ [indent 9 @ ''</application>''] @ render_logging (opt_logging opts)
                 @ [indent 8 @ ''</entry>'']"
  unfolding render_rule_def
  by (auto split: option.splits)

lemma Rule_options:
  assumes "Rule smap fz tz t = Inr (opts, smap')"
  shows "opt_logging opts = logging_loop [] (logging t)"
    and "opt_source opts = address_tokens (source_address t)"
    and "opt_destination opts = address_tokens (destination_address t)"
    and "opt_application opts = application_loop (pan_application t) (protocol t)"
    and "opt_from_zone opts = [fz]" and "opt_to_zone opts = [tz]"
  using assms
  by (auto simp: Rule_def ModifyOptions_def split: if_splits sum.splits prod.splits)

text \<open>
  Claim C8. In the entry of a rule built from a term, the lines between
  \<^verbatim>\<open></application>\<close> and \<^verbatim>\<open></entry>\<close> are: \<^verbatim>\<open><log-start>no</log-start>\<close> and
  \<^verbatim>\<open><log-end>no</log-end>\<close> when the term's logging directives contain \<^verbatim>\<open>disable\<close>,
  whatever else they contain; \<^verbatim>\<open><log-start>yes</log-start>\<close> and
  \<^verbatim>\<open><log-end>yes</log-end>\<close> when they contain \<^verbatim>\<open>log-both\<close> and not \<^verbatim>\<open>disable\<close>;
  only \<^verbatim>\<open><log-end>yes</log-end>\<close>, with no \<^verbatim>\<open><log-start>\<close> line, when they contain
  one of \<^verbatim>\<open>True\<close>, \<^verbatim>\<open>true\<close>, \<^verbatim>\<open>syslog\<close>, \<^verbatim>\<open>local\<close> and neither \<^verbatim>\<open>disable\<close> nor
  \<^verbatim>\<open>log-both\<close>.
\<close>

theorem rule_logging_rendered:
  assumes "Rule smap fz tz t = Inr (opts, smap')" and "render_rule rn opts = Inr ls"
  shows "(''disable'' \<in> set (logging t) \<longrightarrow>
            (\<exists>pre. ls = pre @ [indent 9 @ ''</application>'',
                               indent 9 @ ''<log-start>no</log-start>'',
                               indent 9 @ ''<log-end>no</log-end>'',
                               indent 8 @ ''</entry>'']))
       \<and> (''log-both'' \<in> set (logging t) \<and> ''disable'' \<notin> set (logging t) \<longrightarrow>
            (\<exists>pre. ls = pre @ [indent 9 @ ''</application>'',
                               indent 9 @ ''<log-start>yes</log-start>'',
                               indent 9 @ ''<log-end>yes</log-end>'',
                               indent 8 @ ''</entry>'']))
       \<and> (set (logging t) \<inter> {''True'', ''true'', ''syslog'', ''local''} \<noteq> {}
            \<and> ''disable'' \<notin> set (logging t) \<and> ''log-both'' \<notin> set (logging t) \<longrightarrow>
            (\<exists>pre. ls = pre @ [indent 9 @ ''</application>'',
                               indent 9 @ ''<log-end>yes</log-end>'',
                               indent 8 @ ''</entry>'']))"
proof -
  from assms(2) obtain pre where
    ls: "ls = pre @ [indent 9 @ ''</application>''] @ render_logging (opt_logging opts)
                 @ [indent 8 @ ''</entry>'']"
    using render_rule_logging_block by blast
  have lg: "opt_logging opts = logging_loop [] (logging t)"
    using assms(1) by (rule Rule_options)
  have a: "render_logging (opt_logging opts)
        = [indent 9 @ ''<log-start>no</log-start>'', indent 9 @ ''<log-end>no</log-end>'']"
    if "''disable'' \<in> set (logging t)"
    using that by (simp only: lg logging_loop_disable render_logging_disable)
  have b: "render_logging (opt_logging opts)
        = [indent 9 @ ''<log-start>yes</log-start>'', indent 9 @ ''<log-end>yes</log-end>'']"
    if "''log-both'' \<in> set (logging t)" "''disable'' \<notin> set (logging t)"
    unfolding lg
    by (rule render_logging_both)
       (use that logging_loop_no_disable [of "logging t" "[]"] logging_loop_both [of "logging t" "[]"]
         in simp_all)
  have c: "render_logging (opt_logging opts) = [indent 9 @ ''<log-end>yes</log-end>'']"
    if "set (logging t) \<inter> {''True'', ''true'', ''syslog'', ''local''} \<noteq> {}"
      "''disable'' \<notin> set (logging t)" "''log-both'' \<notin> set (logging t)"
    unfolding lg
  proof (rule render_logging_end)
    show "''disable'' \<notin> set (logging_loop [] (logging t))"
      using that(2) by (simp add: logging_loop_no_disable)
    show "''log-start'' \<notin> set (logging_loop [] (logging t))"
      using that(2,3) by (simp add: logging_loop_log_start)
    show "''log-end'' \<in> set (logging_loop [] (logging t))"
      using that(1,2) by (intro logging_loop_end) (simp_all add: end_words_def)
  qed
  show ?thesis
  proof (intro conjI impI)
    assume "''disable'' \<in> set (logging t)"
    then show "\<exists>pre. ls = pre @ [indent 9 @ ''</application>'',
                               indent 9 @ ''<log-start>no</log-start>'',
                               indent 9 @ ''<log-end>no</log-end>'',
                               indent 8 @ ''</entry>'']"
      using ls a by (intro exI [of _ pre]) simp
  next
    assume "''log-both'' \<in> set (logging t) \<and> ''disable'' \<notin> set (logging t)"
    then show "\<exists>pre. ls = pre @ [indent 9 @ ''</application>'',
                               indent 9 @ ''<log-start>yes</log-start>'',
                               indent 9 @ ''<log-end>yes</log-end>'',
                               indent 8 @ ''</entry>'']"
      using ls b by (intro exI [of _ pre]) simp
  next
    assume "set (logging t) \<inter> {''True'', ''true'', ''syslog'', ''local''} \<noteq> {}
            \<and> ''disable'' \<notin> set (logging t) \<and> ''log-both'' \<notin> set (logging t)"
    then show "\<exists>pre. ls = pre @ [indent 9 @ ''</application>'',
                               indent 9 @ ''<log-end>yes</log-end>'',
                               indent 8 @ ''</entry>'']"
      using ls c by (intro exI [of _ pre]) simp
  qed
qed

lemma Rule_empty_term_logging:
  "\<exists>opts. Rule [] ''trust'' ''untrust'' (empty_term\<lparr> logging := lg \<rparr>) = Inr (opts, [])
      \<and> opt_action opts = Some ''accept''"
  by (simp add: Rule_def ModifyOptions_def empty_term_def)

lemma render_rule_accept:
  "opt_action opts = Some ''accept'' \<Longrightarrow> \<exists>ls. render_rule rn opts = Inr ls"
  by (simp add: render_rule_def ACTIONS_def)

theorem rule_logging_rendered_witness:
  "\<exists>opts smap' ls pre.
     Rule [] ''trust'' ''untrust'' (empty_term\<lparr> logging := [''syslog'', ''disable''] \<rparr>) = Inr (opts, smap')
     \<and> render_rule ''t'' opts = Inr ls
     \<and> ''disable'' \<in> set (logging (empty_term\<lparr> logging := [''syslog'', ''disable''] \<rparr>))
     \<and> ls = pre @ [indent 9 @ ''</application>'', indent 9 @ ''<log-start>no</log-start>'',
                    indent 9 @ ''<log-end>no</log-end>'', indent 8 @ ''</entry>'']"
proof -
  obtain opts where r: "Rule [] ''trust'' ''untrust'' (empty_term\<lparr> logging := [''syslog'', ''disable''] \<rparr>) = Inr (opts, [])"
    and a: "opt_action opts = Some ''accept''"
    using Rule_empty_term_logging by blast
  obtain ls where rr: "render_rule ''t'' opts = Inr ls"
    using render_rule_accept [OF a] by blast
  have d: "''disable'' \<in> set (logging (empty_term\<lparr> logging := [''syslog'', ''disable''] \<rparr>))"
    by simp
  note c1 = rule_logging_rendered [OF r rr, THEN conjunct1, THEN mp, OF d]
  then obtain pre where p: "ls = pre @ [indent 9 @ ''</application>'', indent 9 @ ''<log-start>no</log-start>'',
                    indent 9 @ ''<log-end>no</log-end>'', indent 8 @ ''</entry>'']" ..
  show ?thesis
    by (rule exI [of _ opts], rule exI [of _ "[]"], rule exI [of _ ls], rule exI [of _ pre])
       (intro conjI r rr d p)
qed

subsection \<open>Source and destination members\<close>

lemma Rule_description:
  "Rule smap fz tz t = Inr (opts, smap') \<Longrightarrow> opt_description opts = comment t"
  by (auto simp: Rule_def ModifyOptions_def split: if_splits sum.splits prod.splits)

lemma render_rule_lines:
  assumes "render_rule rn opts = Inr ls"
  shows "\<exists>tail. ls = [indent 8 @ ''<entry name='' @ dquote @ rn @ dquote @ ''>'']
                 @ (if opt_description opts \<noteq> []
                    then [indent 9 @ ''<description>''
                            @ take MAX_RULE_DESCRIPTION_LENGTH (join '' '' (opt_description opts))
                            @ ''</description>'']
                    else [])
                 @ [indent 9 @ ''<to>''] @ map member_line (opt_to_zone opts) @ [indent 9 @ ''</to>'']
                 @ [indent 9 @ ''<from>''] @ map member_line (opt_from_zone opts)
                 @ [indent 9 @ ''</from>'']
                 @ [indent 9 @ ''<source>'']
                 @ map member_line (address_members (opt_source opts))
                 @ [indent 9 @ ''</source>'', indent 9 @ ''<destination>'']
                 @ map member_line (address_members (opt_destination opts))
                 @ [indent 9 @ ''</destination>'', indent 9 @ ''<service>''] @ tail"
proof -
  from assms obtain a act where "opt_action opts = Some a" "map_of ACTIONS a = Some act"
    by (auto simp: render_rule_def split: option.splits)
  with assms have "ls = [indent 8 @ ''<entry name='' @ dquote @ rn @ dquote @ ''>'']
                 @ (if opt_description opts \<noteq> []
                    then [indent 9 @ ''<description>''
                            @ take MAX_RULE_DESCRIPTION_LENGTH (join '' '' (opt_description opts))
                            @ ''</description>'']
                    else [])
                 @ [indent 9 @ ''<to>''] @ map member_line (opt_to_zone opts) @ [indent 9 @ ''</to>'']
                 @ [indent 9 @ ''<from>''] @ map member_line (opt_from_zone opts)
                 @ [indent 9 @ ''</from>'']
                 @ [indent 9 @ ''<source>'']
                 @ map member_line (address_members (opt_source opts))
                 @ [indent 9 @ ''</source>'', indent 9 @ ''<destination>'']
                 @ map member_line (address_members (opt_destination opts))
                 @ [indent 9 @ ''</destination>'', indent 9 @ ''<service>'']
                 @ ((if opt_service opts = [] \<and> opt_application opts = []
                    then [member_line ''any'']
                    else if opt_service opts = [] \<and> opt_application opts \<noteq> []
                    then [member_line ''application-default'']
                    else map member_line (opt_service opts))
                 @ [indent 9 @ ''</service>'']
                 @ [indent 9 @ ''<action>'' @ act @ ''</action>'']
                 @ (if filter (\<lambda>z. z \<notin> set (opt_to_zone opts)) (opt_from_zone opts) \<noteq> []
                    then [indent 9 @ ''<rule-type>interzone</rule-type>'']
                    else if opt_from_zone opts = [] \<and> opt_to_zone opts = []
                    then [indent 9 @ ''<rule-type>interzone</rule-type>'']
                    else [])
                 @ [indent 9 @ ''<application>'']
                 @ (if opt_application opts = [] then [member_line ''any'']
                    else map member_line (opt_application opts))
                 @ [indent 9 @ ''</application>'']
                 @ render_logging (opt_logging opts)
                 @ [indent 8 @ ''</entry>''])"
    by (simp add: render_rule_def)
  then show ?thesis by (rule exI)
qed

text \<open>
  Claim C9. The entry of a rule built from a term with an empty source address list
  holds, between the lines \<^verbatim>\<open><source>\<close> and \<^verbatim>\<open></source>\<close>, the one line
  \<^verbatim>\<open><member>any</member>\<close>; the entry of a rule built from a term with an empty
  destination address list holds, between \<^verbatim>\<open><destination>\<close> and
  \<^verbatim>\<open></destination>\<close>, the one line \<^verbatim>\<open><member>any</member>\<close>. The lines of the entry
  are given from its first line on. The term is the one handed to \<^verbatim>\<open>Rule\<close>, that is, as
  the translation pass left it, after the exclusions were subtracted.
\<close>

theorem empty_addresses_render_any:
  assumes "Rule smap fz tz t = Inr (opts, smap')" and "render_rule rn opts = Inr ls"
  shows "(source_address t = [] \<longrightarrow>
            (\<exists>post. ls =
               [indent 8 @ ''<entry name='' @ dquote @ rn @ dquote @ ''>'']
               @ (if comment t \<noteq> []
                  then [indent 9 @ ''<description>'' @ take 1024 (join '' '' (comment t))
                          @ ''</description>'']
                  else [])
               @ [indent 9 @ ''<to>'', indent 10 @ ''<member>'' @ tz @ ''</member>'',
                  indent 9 @ ''</to>'',
                  indent 9 @ ''<from>'', indent 10 @ ''<member>'' @ fz @ ''</member>'',
                  indent 9 @ ''</from>'',
                  indent 9 @ ''<source>'', indent 10 @ ''<member>any</member>'',
                  indent 9 @ ''</source>'',
                  indent 9 @ ''<destination>''] @ post))
       \<and> (destination_address t = [] \<longrightarrow>
            (\<exists>post. ls =
               [indent 8 @ ''<entry name='' @ dquote @ rn @ dquote @ ''>'']
               @ (if comment t \<noteq> []
                  then [indent 9 @ ''<description>'' @ take 1024 (join '' '' (comment t))
                          @ ''</description>'']
                  else [])
               @ [indent 9 @ ''<to>'', indent 10 @ ''<member>'' @ tz @ ''</member>'',
                  indent 9 @ ''</to>'',
                  indent 9 @ ''<from>'', indent 10 @ ''<member>'' @ fz @ ''</member>'',
                  indent 9 @ ''</from>'',
                  indent 9 @ ''<source>'']
               @ map (\<lambda>s. indent 10 @ ''<member>'' @ s @ ''</member>'')
                   (if source_address t = [] then [''any'']
                    else sort (remdups (map parent_token (source_address t))))
               @ [indent 9 @ ''</source>'',
                  indent 9 @ ''<destination>'', indent 10 @ ''<member>any</member>'',
                  indent 9 @ ''</destination>'',
                  indent 9 @ ''<service>''] @ post))"
proof -
  note o = Rule_options [OF assms(1)] Rule_description [OF assms(1)]
  from render_rule_lines [OF assms(2)] obtain tail where
    ls: "ls = [indent 8 @ ''<entry name='' @ dquote @ rn @ dquote @ ''>'']
                 @ (if opt_description opts \<noteq> []
                    then [indent 9 @ ''<description>''
                            @ take MAX_RULE_DESCRIPTION_LENGTH (join '' '' (opt_description opts))
                            @ ''</description>'']
                    else [])
                 @ [indent 9 @ ''<to>''] @ map member_line (opt_to_zone opts) @ [indent 9 @ ''</to>'']
                 @ [indent 9 @ ''<from>''] @ map member_line (opt_from_zone opts)
                 @ [indent 9 @ ''</from>'']
                 @ [indent 9 @ ''<source>'']
                 @ map member_line (address_members (opt_source opts))
                 @ [indent 9 @ ''</source>'', indent 9 @ ''<destination>'']
                 @ map member_line (address_members (opt_destination opts))
                 @ [indent 9 @ ''</destination>'', indent 9 @ ''<service>''] @ tail"
    by blast
  have sorted_ne: "sort (remdups (map parent_token xs)) \<noteq> []" if "xs \<noteq> []" for xs :: "addr list"
  proof
    assume "sort (remdups (map parent_token xs)) = []"
    then have "set (sort (remdups (map parent_token xs))) = {}" by simp
    then show False using that by simp
  qed
  have src: "address_members (opt_source opts)
      = (if source_address t = [] then [''any'']
         else sort (remdups (map parent_token (source_address t))))"
    using sorted_ne [of "source_address t"]
    by (simp add: o(2) address_tokens_def address_members_def)
  have dst: "destination_address t = [] \<Longrightarrow> address_members (opt_destination opts) = [''any'']"
    by (simp add: o(3) address_tokens_def address_members_def)
  have ml: "member_line = (\<lambda>s. indent 10 @ ''<member>'' @ s @ ''</member>'')"
    by (rule ext) (simp add: member_line_def)
  show ?thesis
  proof (intro conjI impI)
    assume e: "source_address t = []"
    show "\<exists>post. ls =
               [indent 8 @ ''<entry name='' @ dquote @ rn @ dquote @ ''>'']
               @ (if comment t \<noteq> []
                  then [indent 9 @ ''<description>'' @ take 1024 (join '' '' (comment t))
                          @ ''</description>'']
                  else [])
               @ [indent 9 @ ''<to>'', indent 10 @ ''<member>'' @ tz @ ''</member>'',
                  indent 9 @ ''</to>'',
                  indent 9 @ ''<from>'', indent 10 @ ''<member>'' @ fz @ ''</member>'',
                  indent 9 @ ''</from>'',
                  indent 9 @ ''<source>'', indent 10 @ ''<member>any</member>'',
                  indent 9 @ ''</source>'',
                  indent 9 @ ''<destination>''] @ post"
      by (rule exI [of _ "map member_line (address_members (opt_destination opts))
                 @ [indent 9 @ ''</destination>'', indent 9 @ ''<service>''] @ tail"])
         (simp add: ls o(5,6,7) src e MAX_RULE_DESCRIPTION_LENGTH_def member_line_def)
  next
    assume e: "destination_address t = []"
    show "\<exists>post. ls =
               [indent 8 @ ''<entry name='' @ dquote @ rn @ dquote @ ''>'']
               @ (if comment t \<noteq> []
                  then [indent 9 @ ''<description>'' @ take 1024 (join '' '' (comment t))
                          @ ''</description>'']
                  else [])
               @ [indent 9 @ ''<to>'', indent 10 @ ''<member>'' @ tz @ ''</member>'',
                  indent 9 @ ''</to>'',
                  indent 9 @ ''<from>'', indent 10 @ ''<member>'' @ fz @ ''</member>'',
                  indent 9 @ ''</from>'',
                  indent 9 @ ''<source>'']
               @ map (\<lambda>s. indent 10 @ ''<member>'' @ s @ ''</member>'')
                   (if source_address t = [] then [''any'']
                    else sort (remdups (map parent_token (source_address t))))
               @ [indent 9 @ ''</source>'',
                  indent 9 @ ''<destination>'', indent 10 @ ''<member>any</member>'',
                  indent 9 @ ''</destination>'',
                  indent 9 @ ''<service>''] @ post"
      by (rule exI [of _ tail])
         (simp add: ls o(5,6,7) src dst [OF e] MAX_RULE_DESCRIPTION_LENGTH_def ml)
  qed
qed

lemma Rule_empty_term:
  "\<exists>opts. Rule [] ''trust'' ''untrust'' empty_term = Inr (opts, [])
      \<and> opt_action opts = Some ''accept''"
  by (simp add: Rule_def ModifyOptions_def empty_term_def)

theorem empty_addresses_render_any_witness:
  "\<exists>opts smap' ls post.
     Rule [] ''trust'' ''untrust'' empty_term = Inr (opts, smap')
     \<and> render_rule ''t'' opts = Inr ls
     \<and> source_address empty_term = []
     \<and> ls = [indent 8 @ ''<entry name='' @ dquote @ ''t'' @ dquote @ ''>'',
              indent 9 @ ''<to>'', indent 10 @ ''<member>untrust</member>'', indent 9 @ ''</to>'',
              indent 9 @ ''<from>'', indent 10 @ ''<member>trust</member>'', indent 9 @ ''</from>'',
              indent 9 @ ''<source>'', indent 10 @ ''<member>any</member>'',
              indent 9 @ ''</source>'', indent 9 @ ''<destination>''] @ post"
proof -
  obtain opts where r: "Rule [] ''trust'' ''untrust'' empty_term = Inr (opts, [])"
    and a: "opt_action opts = Some ''accept''"
    using Rule_empty_term by blast
  obtain ls where rr: "render_rule ''t'' opts = Inr ls"
    using render_rule_accept [OF a] by blast
  have s: "source_address empty_term = []" and c: "comment empty_term = []"
    by (simp_all add: empty_term_def)
  note c1 = empty_addresses_render_any [OF r rr, THEN conjunct1, THEN mp, OF s]
  then obtain post where p: "ls = [indent 8 @ ''<entry name='' @ dquote @ ''t'' @ dquote @ ''>'',
              indent 9 @ ''<to>'', indent 10 @ ''<member>untrust</member>'', indent 9 @ ''</to>'',
              indent 9 @ ''<from>'', indent 10 @ ''<member>trust</member>'', indent 9 @ ''</from>'',
              indent 9 @ ''<source>'', indent 10 @ ''<member>any</member>'',
              indent 9 @ ''</source>'', indent 9 @ ''<destination>''] @ post"
    unfolding c by (elim exE) simp
  show ?thesis
    by (rule exI [of _ opts], rule exI [of _ "[]"], rule exI [of _ ls], rule exI [of _ post])
       (intro conjI r rr s p)
qed

subsection \<open>Address families\<close>

lemma afc_all_same: "\<forall>a \<in> set xs. version a = v \<Longrightarrow> afc v xs = length xs"
  by (simp add: afc_def)

lemma afc_all_other: "\<forall>a \<in> set xs. version a = v \<Longrightarrow> v' \<noteq> v \<Longrightarrow> afc v' xs = 0"
  by (auto simp: afc_def filter_empty_conv)

lemma flows_v4_to_v6:
  assumes "src \<noteq> []" and "\<forall>a \<in> set src. version a = IPv4"
    and "dst \<noteq> []" and "\<forall>a \<in> set dst. version a = IPv6"
  shows "compute_flows src dst = [''ip4-src-only'', ''ip4-only'', ''ip6-dst-only'', ''ip6-only'']"
proof -
  have "afc IPv4 src = length src" "afc IPv6 src = 0" "afc IPv4 dst = 0" "afc IPv6 dst = length dst"
    using assms afc_all_other [of src IPv4 IPv6] afc_all_other [of dst IPv6 IPv4]
    by (simp_all add: afc_all_same)
  then show ?thesis
    using assms(1,3)
    by (simp add: compute_flows_def flows_of_version_def flow_src_only_def flow_dst_only_def
        flow_only_def flow_dual_def)
qed

lemma gate_v4_to_v6:
  "af_gate ''mixed'' n protos [''ip4-src-only'', ''ip4-only'', ''ip6-dst-only'', ''ip6-only'']
     = Drop (WarnDifferentFamilies n)"
  by (simp add: af_gate_def)

lemma translate_addresses_v4_to_v6:
  assumes "source_address (subtract_excludes e t) \<noteq> []"
    and "\<forall>a \<in> set (source_address (subtract_excludes e t)). version a = IPv4"
    and "destination_address (subtract_excludes e t) \<noteq> []"
    and "\<forall>a \<in> set (destination_address (subtract_excludes e t)). version a = IPv6"
  shows "translate_addresses e ''mixed'' st t
     = Inr (st\<lparr> log := log st @ [WarnDifferentFamilies (name t)] \<rparr>, subtract_excludes e t, False)"
proof -
  have n: "name (subtract_excludes e t) = name t" by (simp add: subtract_excludes_def)
  show ?thesis
    unfolding translate_addresses_def Let_def flows_v4_to_v6 [OF assms] gate_v4_to_v6 n
    by simp
qed

lemma subtract_excludes_name:
  "subtract_excludes e (t\<lparr> name := n \<rparr>) = (subtract_excludes e t)\<lparr> name := n \<rparr>"
  by (simp add: subtract_excludes_def)

lemma translate_term_v4_to_v6:
  assumes "source_address (subtract_excludes e t) \<noteq> []"
    and "\<forall>a \<in> set (source_address (subtract_excludes e t)). version a = IPv4"
    and "destination_address (subtract_excludes e t) \<noteq> []"
    and "\<forall>a \<in> set (destination_address (subtract_excludes e t)). version a = IPv6"
  shows "translate_term e ''mixed'' st dup t \<noteq> Inr (st', dup', t', True)
       \<and> (early_skip t = None \<and> FixTermLength e (name t) = Some n \<and> n \<notin> set dup
            \<and> (\<forall>d. expiration t = Some d \<longrightarrow> current_date e < d) \<longrightarrow>
          (\<exists>infos. translate_term e ''mixed'' st dup t
             = Inr (st\<lparr> log := log st @ infos @ [WarnDifferentFamilies n] \<rparr>, dup @ [n],
                    (subtract_excludes e t)\<lparr> name := n \<rparr>, False)
            \<and> set infos \<subseteq> {InfoExpiresSoon n}))"
proof -
  have ta: "translate_addresses e ''mixed'' s (t\<lparr> name := m \<rparr>)
     = Inr (s\<lparr> log := log s @ [WarnDifferentFamilies m] \<rparr>, (subtract_excludes e t)\<lparr> name := m \<rparr>, False)"
    for s m
    using translate_addresses_v4_to_v6 [of e "t\<lparr> name := m \<rparr>" s] assms
    by (simp add: subtract_excludes_name)
  have 1: "translate_term e ''mixed'' st dup t \<noteq> Inr (st', dup', t', True)"
    by (auto simp: translate_term_def ta Let_def split: option.splits if_splits)
  have 2: "\<exists>infos. translate_term e ''mixed'' st dup t
             = Inr (st\<lparr> log := log st @ infos @ [WarnDifferentFamilies n] \<rparr>, dup @ [n],
                    (subtract_excludes e t)\<lparr> name := n \<rparr>, False)
            \<and> set infos \<subseteq> {InfoExpiresSoon n}"
    if h: "early_skip t = None" "FixTermLength e (name t) = Some n" "n \<notin> set dup"
      "\<forall>d. expiration t = Some d \<longrightarrow> current_date e < d"
  proof (cases "expiration t")
    case None
    then show ?thesis
      using h by (intro exI [of _ "[]"]) (simp add: translate_term_def ta Let_def)
  next
    case (Some d)
    with h(4) have lt: "\<not> d \<le> current_date e" by auto
    show ?thesis
    proof (cases "d \<le> current_date e + 7 * exp_info e")
      case True
      then show ?thesis
        using h Some lt
        by (intro exI [of _ "[InfoExpiresSoon n]"]) (simp add: translate_term_def ta Let_def)
    next
      case False
      then show ?thesis
        using h Some lt
        by (intro exI [of _ "[]"]) (simp add: translate_term_def ta Let_def)
    qed
  qed
  show ?thesis using 1 2 by blast
qed

subsection \<open>The translation pass\<close>

lemma translate_term_dup_error:
  assumes "early_skip t = None" and "FixTermLength e (name t) = Some n" and "n \<in> set dup"
  shows "translate_term e ft st dup t = Inl (PaloAltoFWDuplicateTermError n)"
  using assms by (simp add: translate_term_def)

lemma translate_term_dup_result:
  assumes "translate_term e ft st dup t = Inr (st', dup', t', k)"
  shows "(early_skip t \<noteq> None \<and> dup' = dup)
       \<or> (early_skip t = None \<and> (\<exists>n. FixTermLength e (name t) = Some n \<and> n \<notin> set dup
             \<and> dup' = dup @ [n]))"
  using assms
  by (auto simp: translate_term_def Let_def split: option.splits sum.splits if_splits prod.splits)







lemma translate_terms_append:
  "translate_terms e ft st dup (xs @ ys) =
     (case translate_terms e ft st dup xs of
        Inl err \<Rightarrow> Inl err
      | Inr (st1, dup1, xs', n1) \<Rightarrow>
          (case translate_terms e ft st1 dup1 ys of
             Inl err \<Rightarrow> Inl err
           | Inr (st2, dup2, ys', n2) \<Rightarrow> Inr (st2, dup2, xs' @ ys', n1 @ n2)))"
  by (induction xs arbitrary: st dup) (auto split: sum.splits prod.splits)

lemma translate_terms_dup_mono:
  "translate_terms e ft st dup ts = Inr (st', dup', ts', nts) \<Longrightarrow> set dup \<subseteq> set dup'"
proof (induction ts arbitrary: st dup ts' nts)
  case Nil
  then show ?case by simp
next
  case (Cons t ts)
  from Cons.prems obtain st1 dup1 t1 k where
    1: "translate_term e ft st dup t = Inr (st1, dup1, t1, k)"
    by (auto split: sum.splits prod.splits)
  with Cons.prems obtain ts2 nts2 where
    2: "translate_terms e ft st1 dup1 ts = Inr (st', dup', ts2, nts2)"
    by (auto split: sum.splits prod.splits)
  from translate_term_dup_result [OF 1] have "set dup \<subseteq> set dup1" by auto
  with Cons.IH [OF 2] show ?case by blast
qed


lemma duplicate_fixed_name_aborts:
  assumes ok: "translate_terms e ft st dup (pre @ t1 # mid) = Inr (st1, dup1, ts1, nt1)"
    and s1: "early_skip t1 = None" and s2: "early_skip t2 = None"
    and fx: "FixTermLength e (name t2) = FixTermLength e (name t1)"
  shows "\<exists>n. FixTermLength e (name t1) = Some n
     \<and> translate_terms e ft st dup (pre @ t1 # mid @ t2 # post) = Inl (PaloAltoFWDuplicateTermError n)"
proof -
  from ok obtain sa da xa na where
    a: "translate_terms e ft st dup pre = Inr (sa, da, xa, na)"
    by (auto simp: translate_terms_append split: sum.splits prod.splits)
  with ok obtain xb nb where
    b: "translate_terms e ft sa da (t1 # mid) = Inr (st1, dup1, xb, nb)"
    by (auto simp: translate_terms_append split: sum.splits prod.splits)
  then obtain sc dc t1' k where
    c: "translate_term e ft sa da t1 = Inr (sc, dc, t1', k)"
    by (auto split: sum.splits prod.splits)
  with b obtain xd nd where
    d: "translate_terms e ft sc dc mid = Inr (st1, dup1, xd, nd)"
    by (auto split: sum.splits prod.splits)
  from translate_term_dup_result [OF c] s1 obtain n where
    n: "FixTermLength e (name t1) = Some n" "dc = da @ [n]" by auto
  from translate_terms_dup_mono [OF d] n(2) have "n \<in> set dup1" by auto
  with s2 fx n(1) have "translate_term e ft st1 dup1 t2 = Inl (PaloAltoFWDuplicateTermError n)"
    by (simp add: translate_term_dup_error)
  then have "translate_terms e ft st1 dup1 (t2 # post) = Inl (PaloAltoFWDuplicateTermError n)"
    by simp
  with ok have "translate_terms e ft st dup ((pre @ t1 # mid) @ t2 # post)
      = Inl (PaloAltoFWDuplicateTermError n)"
    by (simp only: translate_terms_append [of e ft st dup "pre @ t1 # mid"] sum.case prod.case)
  with n(1) show ?thesis by auto
qed

lemma translate_header_checked:
  assumes "PLATFORM \<in> set (platforms h)"
    and "\<not> (length (FilterOptions h) < 4 \<or> FilterOptions h ! 0 \<noteq> ''from-zone''
           \<or> FilterOptions h ! 2 \<noteq> ''to-zone'')"
    and "header_filter_type (FilterOptions h) \<in> set SUPPORTED_AF"
  shows "translate_header e st (h, ts) =
      (case translate_terms e (header_filter_type (FilterOptions h))
              (st\<lparr> from_zone := FilterOptions h ! 1, to_zone := FilterOptions h ! 3 \<rparr>) [] ts of
         Inl err \<Rightarrow> Inl err
       | Inr (st2, dup, terms', new_terms) \<Rightarrow>
           (case build_ruleset (from_zone st2) (to_zone st2) (services st2) [] new_terms of
              Inl err \<Rightarrow> Inl err
            | Inr (rs, smap) \<Rightarrow>
                Inr (st2\<lparr> services := smap,
                          pafw_policies := pafw_policies st2 @ [(h, rs, FilterOptions h)] \<rparr>,
                     terms')))"
  using assms by (simp add: translate_header_def Let_def)

lemma translate_header_Inr_checked:
  assumes "PLATFORM \<in> set (platforms h)" and "translate_header e st (h, ts) = Inr r"
  shows "\<not> (length (FilterOptions h) < 4 \<or> FilterOptions h ! 0 \<noteq> ''from-zone''
           \<or> FilterOptions h ! 2 \<noteq> ''to-zone'')"
    and "header_filter_type (FilterOptions h) \<in> set SUPPORTED_AF"
  using assms by (auto simp: translate_header_def Let_def split: if_splits)

lemma translate_header_duplicate:
  assumes pl: "PLATFORM \<in> set (platforms h)"
    and ok: "translate_header e st (h, pre @ t1 # mid) = Inr (st1, ts1)"
    and s1: "early_skip t1 = None" and s2: "early_skip t2 = None"
    and fx: "FixTermLength e (name t2) = FixTermLength e (name t1)"
  shows "\<exists>n. FixTermLength e (name t1) = Some n
     \<and> translate_header e st (h, pre @ t1 # mid @ t2 # post) = Inl (PaloAltoFWDuplicateTermError n)"
proof -
  note chk = translate_header_Inr_checked [OF pl ok]
  note unf = translate_header_checked [OF pl chk]
  from ok obtain s2' d2 x2 n2 where
    "translate_terms e (header_filter_type (FilterOptions h))
       (st\<lparr> from_zone := FilterOptions h ! 1, to_zone := FilterOptions h ! 3 \<rparr>) []
       (pre @ t1 # mid) = Inr (s2', d2, x2, n2)"
    unfolding unf by (auto split: sum.splits prod.splits)
  from duplicate_fixed_name_aborts [OF this s1 s2 fx, of post] show ?thesis
    unfolding unf by auto
qed



lemma translate_addresses_frame:
  assumes "translate_addresses e ft st t = Inr (st', t', k)"
  shows "pafw_policies st' = pafw_policies st" and "services st' = services st"
    and "from_zone st' = from_zone st" and "to_zone st' = to_zone st"
  using assms
  by (auto simp: translate_addresses_def Let_def
      split: gate.splits sum.splits prod.splits list.splits if_splits)

lemma translate_term_frame:
  assumes "translate_term e ft st dup t = Inr (st', dup', t', k)"
  shows "pafw_policies st' = pafw_policies st" and "services st' = services st"
    and "from_zone st' = from_zone st" and "to_zone st' = to_zone st"
  using assms
  by (auto simp: translate_term_def Let_def
      split: option.splits sum.splits prod.splits if_splits dest: translate_addresses_frame)

lemma translate_terms_split:
  assumes "translate_terms e ft st dup (pre @ t # post) = Inr (st2, dup2, ts2, nts)"
  shows "\<exists>s1 d1 x1 n1 s' d' tt k x3 n3.
       translate_terms e ft st dup pre = Inr (s1, d1, x1, n1)
     \<and> translate_term e ft s1 d1 t = Inr (s', d', tt, k)
     \<and> translate_terms e ft s' d' post = Inr (st2, dup2, x3, n3)
     \<and> ts2 = x1 @ tt # x3
     \<and> nts = n1 @ (if k then [tt] else []) @ n3"
proof -
  from assms obtain s1 d1 x1 n1 where
    a: "translate_terms e ft st dup pre = Inr (s1, d1, x1, n1)"
    by (auto simp: translate_terms_append split: sum.splits prod.splits)
  with assms obtain xb nb where
    b: "translate_terms e ft s1 d1 (t # post) = Inr (st2, dup2, xb, nb)"
    and b': "ts2 = x1 @ xb" "nts = n1 @ nb"
    by (auto simp: translate_terms_append split: sum.splits prod.splits)
  from b obtain s' d' tt k where
    c: "translate_term e ft s1 d1 t = Inr (s', d', tt, k)"
    by (auto split: sum.splits prod.splits)
  with b obtain x3 n3 where
    d: "translate_terms e ft s' d' post = Inr (st2, dup2, x3, n3)"
    and d': "xb = tt # x3" "nb = (if k then [tt] else []) @ n3"
    by (auto split: sum.splits prod.splits)
  show ?thesis
    using a c d b' d' by blast
qed










text \<open>
  Claim C3. Under a header of mode \<^verbatim>\<open>mixed\<close>, a term whose source addresses (after
  the exclusions) are all IPv4 and whose destination addresses are all IPv6, at least
  one of each, contributes no rule. The term is never appended to \<^verbatim>\<open>new_terms\<close>; when
  the pass reaches the address-family test (the term is not skipped before it, its fixed
  name is new in the header and it is not expired), the term is dropped there with the
  warning about different address families, the generator otherwise unchanged; the
  \<^verbatim>\<open>new_terms\<close> of a header that holds the term are those of the terms before it
  followed by those of the terms after it; and a header whose only term it is gets an
  empty rule set, so the rule entries of the document are the ones there were.
\<close>

theorem mixed_v4_to_v6_dropped:
  assumes "source_address (subtract_excludes e t) \<noteq> []"
    and "\<forall>a \<in> set (source_address (subtract_excludes e t)). version a = IPv4"
    and "destination_address (subtract_excludes e t) \<noteq> []"
    and "\<forall>a \<in> set (destination_address (subtract_excludes e t)). version a = IPv6"
  shows "translate_term e ''mixed'' st dup t \<noteq> Inr (st', dup', t', True)
       \<and> (early_skip t = None \<and> FixTermLength e (name t) = Some n \<and> n \<notin> set dup
            \<and> (\<forall>d. expiration t = Some d \<longrightarrow> current_date e < d) \<longrightarrow>
          (\<exists>infos. translate_term e ''mixed'' st dup t
             = Inr (st\<lparr> log := log st @ infos @ [WarnDifferentFamilies n] \<rparr>, dup @ [n],
                    (subtract_excludes e t)\<lparr> name := n \<rparr>, False)
            \<and> set infos \<subseteq> {InfoExpiresSoon n}))
       \<and> (translate_terms e ''mixed'' st dup (pre @ t # post) = Inr (st2, dup2, ts2, nts) \<longrightarrow>
          (\<exists>s1 d1 x1 n1 s' d' tt x3 n3.
               translate_terms e ''mixed'' st dup pre = Inr (s1, d1, x1, n1)
             \<and> translate_term e ''mixed'' s1 d1 t = Inr (s', d', tt, False)
             \<and> translate_terms e ''mixed'' s' d' post = Inr (st2, dup2, x3, n3)
             \<and> nts = n1 @ n3))
       \<and> (PLATFORM \<in> set (platforms h) \<and> header_filter_type (FilterOptions h) = ''mixed''
            \<and> translate_header e st (h, [t]) = Inr (st3, ts3) \<longrightarrow>
          pafw_policies st3 = pafw_policies st @ [(h, [], FilterOptions h)]
            \<and> rule_names st3 = rule_names st)"
proof -
  note one = translate_term_v4_to_v6 [OF assms]
  have 1: "translate_term e ''mixed'' s d t \<noteq> Inr (s', d', t', True)" for s d s' d' t'
    using one [of s d s' d' t'] by blast
  have 3: "\<exists>s1 d1 x1 n1 s' d' tt x3 n3.
               translate_terms e ''mixed'' st dup pre = Inr (s1, d1, x1, n1)
             \<and> translate_term e ''mixed'' s1 d1 t = Inr (s', d', tt, False)
             \<and> translate_terms e ''mixed'' s' d' post = Inr (st2, dup2, x3, n3)
             \<and> nts = n1 @ n3"
    if h: "translate_terms e ''mixed'' st dup (pre @ t # post) = Inr (st2, dup2, ts2, nts)"
  proof -
    from translate_terms_split [OF h] obtain s1 d1 x1 n1 s' d' tt k x3 n3 where
      a: "translate_terms e ''mixed'' st dup pre = Inr (s1, d1, x1, n1)"
      and c: "translate_term e ''mixed'' s1 d1 t = Inr (s', d', tt, k)"
      and d: "translate_terms e ''mixed'' s' d' post = Inr (st2, dup2, x3, n3)"
      and n: "nts = n1 @ (if k then [tt] else []) @ n3"
      by blast
    from c 1 [of s1 d1 s' d' tt] have k: "\<not> k" by auto
    with a c d n show ?thesis by auto
  qed
  have 4: "pafw_policies st3 = pafw_policies st @ [(h, [], FilterOptions h)]
            \<and> rule_names st3 = rule_names st"
    if pl: "PLATFORM \<in> set (platforms h)" and ft: "header_filter_type (FilterOptions h) = ''mixed''"
      and ok: "translate_header e st (h, [t]) = Inr (st3, ts3)"
  proof -
    note chk = translate_header_Inr_checked [OF pl ok]
    note unf = translate_header_checked [OF pl chk, of e st "[t]", unfolded ft]
    define sz where "sz = st\<lparr> from_zone := FilterOptions h ! 1, to_zone := FilterOptions h ! 3 \<rparr>"
    from ok obtain s2 d2 x2 n2 where
      tt: "translate_terms e ''mixed'' sz [] [t] = Inr (s2, d2, x2, n2)"
      unfolding unf sz_def by (auto split: sum.splits prod.splits)
    then obtain t2 k where c: "translate_term e ''mixed'' sz [] t = Inr (s2, d2, t2, k)"
      and n2: "n2 = (if k then [t2] else [])"
      by (auto split: sum.splits prod.splits)
    from c 1 [of sz "[]" s2 d2 t2] have "\<not> k" by auto
    with n2 have n2e: "n2 = []" by simp
    have pp: "pafw_policies s2 = pafw_policies st"
      using translate_term_frame(1) [OF c] by (simp add: sz_def)
    from ok have "st3 = s2\<lparr> services := services s2,
                          pafw_policies := pafw_policies s2 @ [(h, [], FilterOptions h)] \<rparr>"
      unfolding unf sz_def [symmetric] tt by (simp add: n2e)
    then have p3: "pafw_policies st3 = pafw_policies st @ [(h, [], FilterOptions h)]"
      by (simp add: pp)
    then show ?thesis by (simp add: rule_names_def)
  qed
  show ?thesis
    using one 1 3 4 by blast
qed

theorem mixed_v4_to_v6_dropped_witness:
  "map version (source_address (subtract_excludes example_env
       (empty_term\<lparr> source_address := [net10], destination_address := [net6] \<rparr>))) = [IPv4]
   \<and> map version (destination_address (subtract_excludes example_env
       (empty_term\<lparr> source_address := [net10], destination_address := [net6] \<rparr>))) = [IPv6]
   \<and> (\<exists>infos. translate_term example_env ''mixed'' (new_pafw []) []
               (empty_term\<lparr> source_address := [net10], destination_address := [net6] \<rparr>)
        = Inr ((new_pafw [])\<lparr> log := log (new_pafw []) @ infos @ [WarnDifferentFamilies ''t''] \<rparr>,
               [] @ [''t''],
               (subtract_excludes example_env
                  (empty_term\<lparr> source_address := [net10], destination_address := [net6] \<rparr>))
                 \<lparr> name := ''t'' \<rparr>, False))"
proof -
  define T where "T = empty_term\<lparr> source_address := [net10], destination_address := [net6] \<rparr>"
  define n where "n = ''t''"
  have s: "source_address (subtract_excludes example_env T) = [net10]"
    and d: "destination_address (subtract_excludes example_env T) = [net6]"
    by (simp_all add: subtract_excludes_def empty_term_def T_def)
  have v: "version net10 = IPv4" "version net6 = IPv6"
    by (simp_all add: net10_def net6_def)
  have h: "early_skip T = None \<and> FixTermLength example_env (name T) = Some n \<and> n \<notin> set []
            \<and> (\<forall>d. expiration T = Some d \<longrightarrow> current_date example_env < d)"
    by (simp add: early_skip_def empty_term_def example_env_def FixTermLength_spec_def
        TERM_MAX_LENGTH_def T_def n_def)
  have h1: "source_address (subtract_excludes example_env T) \<noteq> []" by (simp only: s) simp
  have h2: "\<forall>a \<in> set (source_address (subtract_excludes example_env T)). version a = IPv4"
    by (simp only: s) (simp add: v)
  have h3: "destination_address (subtract_excludes example_env T) \<noteq> []" by (simp only: d) simp
  have h4: "\<forall>a \<in> set (destination_address (subtract_excludes example_env T)). version a = IPv6"
    by (simp only: d) (simp add: v)
  note th = mixed_v4_to_v6_dropped [OF h1 h2 h3 h4, where st = "new_pafw []"
          and dup = "[]" and n = n, THEN conjunct2, THEN conjunct1, THEN mp, OF h]
  have e: "\<exists>infos. translate_term example_env ''mixed'' (new_pafw []) [] T
        = Inr ((new_pafw [])\<lparr> log := log (new_pafw []) @ infos @ [WarnDifferentFamilies n] \<rparr>,
               [] @ [n], (subtract_excludes example_env T)\<lparr> name := n \<rparr>, False)"
    using th by (elim exE conjE) (rule exI)
  have a: "map version (source_address (subtract_excludes example_env T)) = [IPv4]"
    by (simp only: s) (simp add: v)
  have b: "map version (destination_address (subtract_excludes example_env T)) = [IPv6]"
    by (simp only: d) (simp add: v)
  show ?thesis
    using a b e unfolding T_def n_def by (intro conjI)
qed

subsection \<open>Duplicate term names\<close>

text \<open>The pass on the example terms, under the header mode \<^verbatim>\<open>inet\<close>.\<close>

lemma flows_any: "compute_flows [] [] = [''ip4-ip4'', ''ip6-ip6'']"
  by (simp add: compute_flows_def flows_of_version_def flow_dual_def)

lemma gate_inet_any:
  "''icmpv6'' \<notin> set protos \<Longrightarrow> af_gate ''inet'' n protos [''ip4-ip4'', ''ip6-ip6''] = Keep [IPv6] []"
  by (simp add: af_gate_def)























subsection \<open>The caller's terms\<close>

lemma icmp_app_name_in: "tn \<in> set types \<Longrightarrow> icmp_app_name v tn \<in> icmp_names types"
  by (cases v) (simp_all add: icmp_app_name_def icmp_names_def)

lemma icmp_type_loop_pan:
  "icmp_type_loop e v kw risk tname (refs, apps, pan) tns = Inr (refs', apps', pan') \<Longrightarrow>
   \<exists>extra. pan' = pan @ extra \<and> set extra \<subseteq> icmp_app_name v ` set tns"
proof (induction tns arbitrary: refs apps pan)
  case Nil
  then show ?case by simp
next
  case (Cons tn tns)
  from Cons.prems obtain code where c: "ICMP_TYPE e v tn = Some code"
    by (auto split: option.splits)
  show ?case
  proof (cases "dict_has refs (icmp_app_name v tn)")
    case True
    with Cons.prems c have "icmp_type_loop e v kw risk tname (refs, apps, pan) tns = Inr (refs', apps', pan')"
      by simp
    from Cons.IH [OF this] show ?thesis by auto
  next
    case False
    define pan1 where "pan1 = (if icmp_app_name v tn \<notin> set pan then pan @ [icmp_app_name v tn] else pan)"
    from False Cons.prems c have "icmp_type_loop e v kw risk tname
        (dict_set refs (icmp_app_name v tn) (make_app_entry (icmp_app_name v tn) kw code risk),
         apps @ [icmp_app_name v tn], pan1) tns = Inr (refs', apps', pan')"
      by (simp add: pan1_def)
    from Cons.IH [OF this] obtain extra where
      e: "pan' = pan1 @ extra" "set extra \<subseteq> icmp_app_name v ` set tns" by blast
    show ?thesis
    proof (cases "icmp_app_name v tn \<notin> set pan")
      case True
      with e show ?thesis
        by (intro exI [of _ "icmp_app_name v tn # extra"]) (auto simp: pan1_def)
    next
      case False
      with e show ?thesis
        by (intro exI [of _ extra]) (auto simp: pan1_def)
    qed
  qed
qed

lemma icmp_version_step_pan:
  assumes "icmp_version_step e ft flows tname types iv (refs, apps, pan) = Inr (refs', apps', pan')"
  shows "\<exists>extra. pan' = pan @ extra \<and> set extra \<subseteq> icmp_names types"
proof -
  have loop: "\<exists>extra. pan' = pan @ extra \<and> set extra \<subseteq> icmp_names types"
    if "icmp_type_loop e v kw risk tname (refs, apps, pan) types = Inr (refs', apps', pan')"
    for v kw risk
  proof -
    from icmp_type_loop_pan [OF that] obtain extra where
      "pan' = pan @ extra" "set extra \<subseteq> icmp_app_name v ` set types" by blast
    moreover have "icmp_app_name v ` set types \<subseteq> icmp_names types"
      using icmp_app_name_in by blast
    ultimately show ?thesis by blast
  qed
  have same: "\<exists>extra. pan = pan @ extra \<and> set extra \<subseteq> icmp_names types"
    by (intro exI [of _ "[]"]) simp
  have one: "\<exists>extra. pan @ [x] = pan @ extra \<and> set extra \<subseteq> icmp_names types"
    if "x \<in> icmp_names types" for x
    using that by (intro exI [of _ "[x]"]) simp
  have i4: "''icmp'' \<in> icmp_names ts" and i6: "''ipv6-icmp'' \<in> icmp_names ts" for ts
    by (simp_all add: icmp_names_def)
  from assms show ?thesis
    unfolding icmp_version_step_def prod.case
    by (auto simp: i4 i6 split: if_splits intro: loop same)
qed

lemma handle_icmp_pan:
  assumes "handle_icmp e ft flows tname protos types (refs, apps, pan) = Inr (refs', apps', pan')"
  shows "\<exists>extra. pan' = pan @ extra \<and> set extra \<subseteq> icmp_names types"
    and "''icmp'' \<notin> set protos \<and> ''icmpv6'' \<notin> set protos \<Longrightarrow> pan' = pan"
proof -
  show "''icmp'' \<notin> set protos \<and> ''icmpv6'' \<notin> set protos \<Longrightarrow> pan' = pan"
    using assms by (simp add: handle_icmp_def)
  show "\<exists>extra. pan' = pan @ extra \<and> set extra \<subseteq> icmp_names types"
  proof (cases "''icmp'' \<notin> set protos \<and> ''icmpv6'' \<notin> set protos")
    case True
    with assms have "pan' = pan" by (simp add: handle_icmp_def)
    then show ?thesis by (intro exI [of _ "[]"]) simp
  next
    case False
    with assms obtain r1 a1 p1 where
      1: "icmp_version_step e ft flows tname types ''icmp'' (refs, apps, pan) = Inr (r1, a1, p1)"
      and 2: "icmp_version_step e ft flows tname types ''icmpv6'' (r1, a1, p1) = Inr (refs', apps', pan')"
      by (auto simp: handle_icmp_def split: sum.splits)
    from icmp_version_step_pan [OF 1] obtain x1 where
      x1: "p1 = pan @ x1" "set x1 \<subseteq> icmp_names types" by blast
    from icmp_version_step_pan [OF 2] obtain x2 where
      x2: "pan' = p1 @ x2" "set x2 \<subseteq> icmp_names types" by blast
    from x1 x2 show ?thesis by (intro exI [of _ "x1 @ x2"]) simp
  qed
qed

lemma translate_addresses_term:
  assumes "translate_addresses e ft st t = Inr (st', t', k)"
  shows "\<exists>extra. t' = (subtract_excludes e t)\<lparr> pan_application := pan_application t @ extra \<rparr>
           \<and> set extra \<subseteq> icmp_names (icmp_type t)
           \<and> (''icmp'' \<notin> set (protocol t) \<and> ''icmpv6'' \<notin> set (protocol t) \<longrightarrow> extra = [])"
proof (cases "af_gate ft (name (subtract_excludes e t)) (protocol (subtract_excludes e t))
                (compute_flows (source_address (subtract_excludes e t))
                   (destination_address (subtract_excludes e t)))")
  case (Drop w)
  with assms have "t' = subtract_excludes e t"
    by (simp add: translate_addresses_def Let_def)
  then show ?thesis
    by (intro exI [of _ "[]"]) (simp add: subtract_excludes_def)
next
  case (Keep excl ws)
  with assms obtain rs aps flows refs apps pan where
    h: "handle_icmp e ft flows (name (subtract_excludes e t)) (protocol (subtract_excludes e t))
          (icmp_type (subtract_excludes e t))
          (rs, aps, pan_application (subtract_excludes e t))
        = Inr (refs, apps, pan)"
    and t': "t' = (subtract_excludes e t)\<lparr> pan_application := pan \<rparr>"
    by (auto simp: translate_addresses_def Let_def
        split: sum.splits prod.splits list.splits if_splits)
  have f: "protocol (subtract_excludes e t) = protocol t"
    "icmp_type (subtract_excludes e t) = icmp_type t"
    "pan_application (subtract_excludes e t) = pan_application t"
    by (simp_all add: subtract_excludes_def)
  from handle_icmp_pan(1) [OF h] obtain extra where
    x: "pan = pan_application t @ extra" "set extra \<subseteq> icmp_names (icmp_type t)"
    by (auto simp: f)
  have "''icmp'' \<notin> set (protocol t) \<and> ''icmpv6'' \<notin> set (protocol t) \<Longrightarrow> extra = []"
    using handle_icmp_pan(2) [OF h] x(1) by (simp add: f)
  with x t' show ?thesis by (intro exI [of _ extra]) auto
qed

lemma translate_term_frame_term:
  assumes "translate_term e ft st dup t = Inr (st', dup', t', k)"
  shows "frame e t t'"
proof (cases "early_skip t")
  case (Some w)
  with assms have "t' = t" by (simp add: translate_term_def)
  then show ?thesis unfolding frame_def by (intro exI [of _ "[]"]) simp
next
  case None
  with assms obtain n where n: "FixTermLength e (name t) = Some n"
    by (auto simp: translate_term_def split: option.splits)
  define t1 where "t1 = t\<lparr> name := n \<rparr>"
  from assms None n have
    "t' = t1 \<or> (\<exists>s s' k'. translate_addresses e ft s t1 = Inr (s', t', k'))"
    by (auto simp: translate_term_def Let_def t1_def
        split: option.splits sum.splits prod.splits if_splits)
  then show ?thesis
  proof
    assume "t' = t1"
    then show ?thesis
      unfolding frame_def using n by (intro exI [of _ "[]"]) (simp add: t1_def)
  next
    assume "\<exists>s s' k'. translate_addresses e ft s t1 = Inr (s', t', k')"
    then obtain s s' k' where "translate_addresses e ft s t1 = Inr (s', t', k')" by blast
    from translate_addresses_term [OF this] obtain extra where
      x: "t' = (subtract_excludes e t1)\<lparr> pan_application := pan_application t1 @ extra \<rparr>"
        "set extra \<subseteq> icmp_names (icmp_type t1)"
        "''icmp'' \<notin> set (protocol t1) \<and> ''icmpv6'' \<notin> set (protocol t1) \<longrightarrow> extra = []"
      by blast
    show ?thesis
      unfolding frame_def using x n
      by (intro exI [of _ extra]) (simp add: t1_def subtract_excludes_def)
  qed
qed


lemma frame_refl: "frame e t t"
  unfolding frame_def by (intro exI [of _ "[]"]) simp

lemma translate_terms_frame:
  "translate_terms e ft st dup ts = Inr (st', dup', ts', nts) \<Longrightarrow> list_all2 (frame e) ts ts'"
proof (induction ts arbitrary: st dup ts' nts)
  case Nil
  then show ?case by simp
next
  case (Cons t ts)
  from Cons.prems obtain st1 dup1 t1 k where
    1: "translate_term e ft st dup t = Inr (st1, dup1, t1, k)"
    by (auto split: sum.splits prod.splits)
  with Cons.prems obtain ts2 nts2 where
    2: "translate_terms e ft st1 dup1 ts = Inr (st', dup', ts2, nts2)" and 3: "ts' = t1 # ts2"
    by (auto split: sum.splits prod.splits)
  from translate_term_frame_term [OF 1] Cons.IH [OF 2] 3 show ?case by simp
qed

lemma translate_header_frame:
  assumes "translate_header e st (h, ts) = Inr (st', ts')"
  shows "list_all2 (frame e) ts ts'"
proof (cases "PLATFORM \<in> set (platforms h)")
  case False
  with assms have "ts' = ts" by (simp add: translate_header_def)
  then show ?thesis by (simp add: list_all2_refl frame_refl)
next
  case True
  note chk = translate_header_Inr_checked [OF True assms]
  from assms obtain s2 d2 n2 where
    "translate_terms e (header_filter_type (FilterOptions h))
       (st\<lparr> from_zone := FilterOptions h ! 1, to_zone := FilterOptions h ! 3 \<rparr>) [] ts
     = Inr (s2, d2, ts', n2)"
    unfolding translate_header_checked [OF True chk]
    by (auto split: sum.splits prod.splits)
  then show ?thesis by (rule translate_terms_frame)
qed

lemma TranslatePolicy_frame:
  "TranslatePolicy e st pol = Inr (st', pol') \<Longrightarrow>
   map fst pol' = map fst pol
     \<and> list_all2 (\<lambda>ht ht'. list_all2 (frame e) (snd ht) (snd ht')) pol pol'"
proof (induction pol arbitrary: st pol')
  case Nil
  then show ?case by simp
next
  case (Cons ht pol)
  obtain h ts where ht: "ht = (h, ts)" by (cases ht)
  from Cons.prems obtain st1 ts1 where
    1: "translate_header e st (h, ts) = Inr (st1, ts1)"
    by (auto simp: ht split: sum.splits prod.splits)
  with Cons.prems obtain rest where
    2: "TranslatePolicy e st1 pol = Inr (st', rest)" and 3: "pol' = (h, ts1) # rest"
    by (auto simp: ht split: sum.splits prod.splits)
  from translate_header_frame [OF 1] Cons.IH [OF 2] 3 show ?case by (simp add: ht)
qed

lemma handle_icmp_plain:
  "handle_icmp e ''inet'' [''ip4-ip4'', ''ip6-ip6''] n [''icmp''] [] (refs, apps, pan)
     = Inr (refs, apps, pan @ [''icmp''])"
  by (simp add: handle_icmp_def icmp_version_step_def)

lemma translate_icmp_term:
  "''t'' \<notin> set dup \<Longrightarrow>
   translate_term example_env ''inet'' st dup (empty_term\<lparr> protocol := [''icmp''] \<rparr>)
     = Inr (st, dup @ [''t''],
            empty_term\<lparr> protocol := [''icmp''], pan_application := [''icmp''] \<rparr>, True)"
  by (simp add: translate_term_def early_skip_def empty_term_def example_env_def
      FixTermLength_spec_def TERM_MAX_LENGTH_def translate_addresses_def subtract_excludes_def
      flows_any gate_inet_any handle_icmp_plain SUPPORTED_PROTO_NAMES_def Let_def)

lemma Rule_icmp_term:
  "fz \<noteq> [] \<Longrightarrow> tz \<noteq> [] \<Longrightarrow>
   Rule smap fz tz (empty_term\<lparr> protocol := [''icmp''], pan_application := pan \<rparr>)
     = Inr (\<lparr> opt_from_zone = [fz], opt_to_zone = [tz], opt_description = [],
              opt_source = [''any''], opt_destination = [''any''], opt_application = pan,
              opt_service = [], opt_logging = [],
              opt_action = Some ''accept'', opt_option = None \<rparr>, smap)"
  by (simp add: Rule_def ModifyOptions_def empty_term_def address_tokens_def)

text \<open>
  A term with the protocol \<^verbatim>\<open>icmp\<close> and no ICMP type, under a header of mode
  \<^verbatim>\<open>inet\<close>: the pass appends \<^verbatim>\<open>icmp\<close> to the term's \<^verbatim>\<open>pan_application\<close>, which
  was empty.
\<close>

theorem term_mutated_counterexample:
  "pan_application (empty_term\<lparr> protocol := [''icmp''] \<rparr>) = []
   \<and> map_sum id snd (TranslatePolicy example_env (new_pafw [])
        [(header_out, [empty_term\<lparr> protocol := [''icmp''] \<rparr>])])
     = Inr [(header_out, [empty_term\<lparr> protocol := [''icmp''], pan_application := [''icmp''] \<rparr>])]"
  by (simp add: translate_header_def header_out_def PLATFORM_def header_filter_type_def
      SUPPORTED_AF_def translate_icmp_term Rule_icmp_term new_pafw_def Let_def)
    (simp add: empty_term_def)

text \<open>
  Claim C7. The body of the loop over the terms leaves a term as it was but for three
  things: the name, which becomes the fixed name; the source and destination address
  lists, which become the lists with the exclusions subtracted; and
  \<^verbatim>\<open>pan_application\<close>, to which the ICMP block appends application names (\<^verbatim>\<open>icmp\<close>,
  \<^verbatim>\<open>ipv6-icmp\<close>, or \<^verbatim>\<open>icmp-\<close> and \<^verbatim>\<open>icmp6-\<close> followed by a type name of the term),
  and only when the protocols hold \<^verbatim>\<open>icmp\<close> or \<^verbatim>\<open>icmpv6\<close>. No other field changes.
  The same holds of every term of every header after the whole pass; \<^verbatim>\<open>Rule\<close> only
  reads the term.
\<close>

theorem translation_frame:
  "(translate_term e ft st dup t = Inr (st', dup', t', k) \<longrightarrow>
      (\<exists>extra.
          t' = t\<lparr> name := name t', source_address := source_address t',
                  destination_address := destination_address t',
                  pan_application := pan_application t @ extra \<rparr>
        \<and> (name t' = name t \<or> FixTermLength e (name t) = Some (name t'))
        \<and> (source_address t' = source_address t
             \<or> source_address t'
                 = foldl (RemoveAddressFromList e) (source_address t) (source_address_exclude t))
        \<and> (destination_address t' = destination_address t
             \<or> destination_address t'
                 = foldl (RemoveAddressFromList e) (destination_address t)
                     (destination_address_exclude t))
        \<and> set extra \<subseteq> {''icmp'', ''ipv6-icmp''} \<union> (\<lambda>tn. ''icmp-'' @ tn) ` set (icmp_type t)
                          \<union> (\<lambda>tn. ''icmp6-'' @ tn) ` set (icmp_type t)
        \<and> (''icmp'' \<notin> set (protocol t) \<and> ''icmpv6'' \<notin> set (protocol t) \<longrightarrow> extra = [])))
   \<and> (TranslatePolicy e st0 pol = Inr (st1, pol') \<longrightarrow>
        map fst pol' = map fst pol
          \<and> list_all2 (\<lambda>ht ht'. list_all2 (frame e) (snd ht) (snd ht')) pol pol')"
proof (intro conjI impI)
  assume "translate_term e ft st dup t = Inr (st', dup', t', k)"
  from translate_term_frame_term [OF this]
  show "\<exists>extra.
          t' = t\<lparr> name := name t', source_address := source_address t',
                  destination_address := destination_address t',
                  pan_application := pan_application t @ extra \<rparr>
        \<and> (name t' = name t \<or> FixTermLength e (name t) = Some (name t'))
        \<and> (source_address t' = source_address t
             \<or> source_address t'
                 = foldl (RemoveAddressFromList e) (source_address t) (source_address_exclude t))
        \<and> (destination_address t' = destination_address t
             \<or> destination_address t'
                 = foldl (RemoveAddressFromList e) (destination_address t)
                     (destination_address_exclude t))
        \<and> set extra \<subseteq> {''icmp'', ''ipv6-icmp''} \<union> (\<lambda>tn. ''icmp-'' @ tn) ` set (icmp_type t)
                          \<union> (\<lambda>tn. ''icmp6-'' @ tn) ` set (icmp_type t)
        \<and> (''icmp'' \<notin> set (protocol t) \<and> ''icmpv6'' \<notin> set (protocol t) \<longrightarrow> extra = [])"
    unfolding frame_def icmp_names_def .
next
  assume "TranslatePolicy e st0 pol = Inr (st1, pol')"
  from TranslatePolicy_frame [OF this] show "map fst pol' = map fst pol" ..
next
  assume "TranslatePolicy e st0 pol = Inr (st1, pol')"
  from TranslatePolicy_frame [OF this]
  show "list_all2 (\<lambda>ht ht'. list_all2 (frame e) (snd ht) (snd ht')) pol pol'" ..
qed

theorem translation_frame_witness:
  "translate_term example_env ''inet'' (new_pafw []) [] (empty_term\<lparr> protocol := [''icmp''] \<rparr>)
     = Inr (new_pafw [], [''t''],
            empty_term\<lparr> protocol := [''icmp''], pan_application := [''icmp''] \<rparr>, True)
   \<and> (\<exists>extra.
        empty_term\<lparr> protocol := [''icmp''], pan_application := [''icmp''] \<rparr>
          = (empty_term\<lparr> protocol := [''icmp''] \<rparr>)
              \<lparr> name := name (empty_term\<lparr> protocol := [''icmp''], pan_application := [''icmp''] \<rparr>),
                source_address := source_address (empty_term\<lparr> protocol := [''icmp''], pan_application := [''icmp''] \<rparr>),
                destination_address := destination_address (empty_term\<lparr> protocol := [''icmp''], pan_application := [''icmp''] \<rparr>),
                pan_application := pan_application (empty_term\<lparr> protocol := [''icmp''] \<rparr>) @ extra \<rparr>
        \<and> set extra \<subseteq> {''icmp'', ''ipv6-icmp''})"
proof -
  define T where "T = empty_term\<lparr> protocol := [''icmp''] \<rparr>"
  define T' where "T' = empty_term\<lparr> protocol := [''icmp''], pan_application := [''icmp''] \<rparr>"
  have r: "translate_term example_env ''inet'' (new_pafw []) [] T = Inr (new_pafw [], [''t''], T', True)"
    unfolding T_def T'_def using translate_icmp_term [of "[]" "new_pafw []"] by simp
  note th = translation_frame [where e = example_env and ft = "''inet''" and st = "new_pafw []"
      and dup = "[]" and t = T and st' = "new_pafw []" and dup' = "[''t'']" and t' = T'
      and k = True, THEN conjunct1, THEN mp, OF r]
  have it: "icmp_type T = []" by (simp add: T_def empty_term_def)
  from th obtain extra where
    a: "T' = T\<lparr> name := name T', source_address := source_address T',
              destination_address := destination_address T',
              pan_application := pan_application T @ extra \<rparr>"
    and b: "set extra \<subseteq> {''icmp'', ''ipv6-icmp''} \<union> (\<lambda>tn. ''icmp-'' @ tn) ` set (icmp_type T)
                          \<union> (\<lambda>tn. ''icmp6-'' @ tn) ` set (icmp_type T)"
    by (elim exE conjE)
  from b have b': "set extra \<subseteq> {''icmp'', ''ipv6-icmp''}" unfolding it by simp
  have "\<exists>extra. T' = T\<lparr> name := name T', source_address := source_address T',
              destination_address := destination_address T',
              pan_application := pan_application T @ extra \<rparr>
        \<and> set extra \<subseteq> {''icmp'', ''ipv6-icmp''}"
    using a b' by (intro exI [of _ extra] conjI)
  with r show ?thesis unfolding T_def T'_def by (intro conjI)
qed

subsection \<open>ICMP applications\<close>

lemma icmp_type_loop_reuse:
  assumes "dict_has refs (icmp_app_name v tn)" and "ICMP_TYPE e v tn = Some code"
  shows "icmp_type_loop e v kw risk tname (refs, apps, pan) [tn] = Inr (refs, apps, pan)"
  using assms by simp

lemma icmp_type_loop_new:
  assumes "\<not> dict_has refs (icmp_app_name v tn)" and "ICMP_TYPE e v tn = Some code"
  shows "icmp_type_loop e v kw risk tname (refs, apps, pan) [tn]
     = Inr (dict_set refs (icmp_app_name v tn) (make_app_entry (icmp_app_name v tn) kw code risk),
            apps @ [icmp_app_name v tn],
            if icmp_app_name v tn \<notin> set pan then pan @ [icmp_app_name v tn] else pan)"
  using assms by simp

lemma echo_request_code: "ICMP_TYPE example_env IPv4 ''echo-request'' = Some 8"
  by (simp add: example_env_def)

lemma echo_request_name: "icmp_app_name IPv4 ''echo-request'' = ''icmp-echo-request''"
  by (simp add: icmp_app_name_def)

lemma handle_icmp_ping_new:
  "handle_icmp example_env ''inet'' [''ip4-ip4'', ''ip6-ip6''] n [''icmp''] [''echo-request'']
       ([], [], [])
     = Inr ([(''icmp-echo-request'', make_app_entry ''icmp-echo-request'' ''ident-by-icmp-type'' 8 4)],
            [''icmp-echo-request''], [''icmp-echo-request''])"
proof -
  have "icmp_type_loop example_env IPv4 ''ident-by-icmp-type'' 4 n ([], [], []) [''echo-request'']
     = Inr ([(''icmp-echo-request'', make_app_entry ''icmp-echo-request'' ''ident-by-icmp-type'' 8 4)],
            [''icmp-echo-request''], [''icmp-echo-request''])"
    by (subst icmp_type_loop_new [OF _ echo_request_code])
       (simp_all add: echo_request_name dict_has_def)
  then show ?thesis
    by (simp add: handle_icmp_def icmp_version_step_def)
qed

lemma handle_icmp_ping_reuse:
  "handle_icmp example_env ''inet'' [''ip4-ip4'', ''ip6-ip6''] n [''icmp''] [''echo-request'']
       ([(''icmp-echo-request'', x)], apps, pan)
     = Inr ([(''icmp-echo-request'', x)], apps, pan)"
proof -
  have "icmp_type_loop example_env IPv4 ''ident-by-icmp-type'' 4 n
          ([(''icmp-echo-request'', x)], apps, pan) [''echo-request'']
     = Inr ([(''icmp-echo-request'', x)], apps, pan)"
    by (rule icmp_type_loop_reuse [OF _ echo_request_code])
       (simp add: echo_request_name dict_has_def)
  then show ?thesis
    by (simp add: handle_icmp_def icmp_version_step_def)
qed


lemma ping_term_fields:
  "early_skip (ping_term n) = None" "name (ping_term n) = n" "expiration (ping_term n) = None"
  "protocol (ping_term n) = [''icmp'']" "icmp_type (ping_term n) = [''echo-request'']"
  "pan_application (ping_term n) = []"
  "subtract_excludes e ((ping_term n)\<lparr> name := m \<rparr>) = ping_term m"
  "source_address (ping_term n) = []" "destination_address (ping_term n) = []"
  by (simp_all add: ping_term_def empty_term_def early_skip_def subtract_excludes_def)

lemma translate_ping_first:
  assumes "length n \<le> 31" and "n \<notin> set dup"
    and "application_refs st = []" and "applications st = []"
  shows "translate_term example_env ''inet'' st dup (ping_term n)
     = Inr (st\<lparr> application_refs :=
                  [(''icmp-echo-request'',
                    make_app_entry ''icmp-echo-request'' ''ident-by-icmp-type'' 8 4)],
                applications := [''icmp-echo-request''] \<rparr>,
            dup @ [n], (ping_term n)\<lparr> pan_application := [''icmp-echo-request''] \<rparr>, True)"
proof -
  have fx: "FixTermLength example_env n = Some n"
    using assms(1) by (simp add: example_env_def FixTermLength_spec_def TERM_MAX_LENGTH_def)
  have nn: "(ping_term n)\<lparr> name := n \<rparr> = ping_term n" by (simp add: ping_term_def)
  have ta: "translate_addresses example_env ''inet'' st (ping_term n)
     = Inr (st\<lparr> application_refs :=
                  [(''icmp-echo-request'',
                    make_app_entry ''icmp-echo-request'' ''ident-by-icmp-type'' 8 4)],
                applications := [''icmp-echo-request''] \<rparr>,
            (ping_term n)\<lparr> pan_application := [''icmp-echo-request''] \<rparr>, True)"
    using ping_term_fields(7) [of example_env n n]
    by (simp add: translate_addresses_def Let_def nn ping_term_fields flows_any gate_inet_any
        assms(3,4) handle_icmp_ping_new SUPPORTED_PROTO_NAMES_def)
  show ?thesis
    using assms(2) by (simp add: translate_term_def ping_term_fields fx nn ta Let_def)
qed

lemma translate_ping_second:
  assumes "length n \<le> 31" and "n \<notin> set dup"
    and "application_refs st = [(''icmp-echo-request'', x)]"
  shows "translate_term example_env ''inet'' st dup (ping_term n)
     = Inr (st, dup @ [n], ping_term n, True)"
proof -
  have fx: "FixTermLength example_env n = Some n"
    using assms(1) by (simp add: example_env_def FixTermLength_spec_def TERM_MAX_LENGTH_def)
  have nn: "(ping_term n)\<lparr> name := n \<rparr> = ping_term n" by (simp add: ping_term_def)
  have pp: "(ping_term n)\<lparr> pan_application := [] \<rparr> = ping_term n"
    by (simp add: ping_term_def empty_term_def)
  have ta: "translate_addresses example_env ''inet'' st (ping_term n) = Inr (st, ping_term n, True)"
    using ping_term_fields(7) [of example_env n n] assms(3) [symmetric]
    by (simp add: translate_addresses_def Let_def nn ping_term_fields flows_any gate_inet_any
        assms(3) handle_icmp_ping_reuse SUPPORTED_PROTO_NAMES_def pp)
  show ?thesis
    using assms(2) by (simp add: translate_term_def ping_term_fields fx nn ta Let_def)
qed

lemma Rule_ping:
  "fz \<noteq> [] \<Longrightarrow> tz \<noteq> [] \<Longrightarrow>
   Rule smap fz tz ((ping_term n)\<lparr> pan_application := pan \<rparr>)
     = Inr (\<lparr> opt_from_zone = [fz], opt_to_zone = [tz], opt_description = [],
              opt_source = [''any''], opt_destination = [''any''], opt_application = pan,
              opt_service = [], opt_logging = [],
              opt_action = Some ''accept'', opt_option = None \<rparr>, smap)"
  by (simp add: Rule_def ModifyOptions_def ping_term_def empty_term_def address_tokens_def)


lemma echo_request_entry:
  "make_app_entry ''icmp-echo-request'' ''ident-by-icmp-type'' 8 4
     = \<lparr> app_category = ''networking'', app_subcategory = ''ip-protocol'',
         app_technology = ''network-protocol'', app_description = ''icmp-echo-request'',
         app_default = [(''ident-by-icmp-type'', ''8'')], app_risk = ''4'' \<rparr>"
  by (simp add: make_app_entry_def str_int_def str_nat.simps digit_char_def)

text \<open>
  Claim C2. The code departs from the claim where the application entry is reused. Two
  terms \<^verbatim>\<open>ping-a\<close> and \<^verbatim>\<open>ping-b\<close> under one header of mode \<^verbatim>\<open>inet\<close>, both with the
  protocol \<^verbatim>\<open>icmp\<close> and the ICMP type \<^verbatim>\<open>echo-request\<close>: the pass builds the entry
  \<^verbatim>\<open>icmp-echo-request\<close> (matcher \<^verbatim>\<open>ident-by-icmp-type\<close>, type 8, risk 4) for the first
  term and attaches its name to that term; for the second term it finds the entry and
  goes on to the next type without attaching the name, so the application list of the
  second rule is empty and its entry is rendered with the service \<^verbatim>\<open>any\<close> and the
  application \<^verbatim>\<open>any\<close>.
\<close>

theorem icmp_reuse_not_attached:
  "map_sum id (\<lambda>r. (application_refs (fst r), pafw_policies (fst r), snd r))
     (TranslatePolicy example_env (new_pafw [])
        [(header_out, [ping_term ''ping-a'', ping_term ''ping-b''])])
   = Inr ([(''icmp-echo-request'',
            \<lparr> app_category = ''networking'', app_subcategory = ''ip-protocol'',
              app_technology = ''network-protocol'', app_description = ''icmp-echo-request'',
              app_default = [(''ident-by-icmp-type'', ''8'')], app_risk = ''4'' \<rparr>)],
          [(header_out,
            [(''ping-a'',
              \<lparr> opt_from_zone = [''trust''], opt_to_zone = [''untrust''], opt_description = [],
                opt_source = [''any''], opt_destination = [''any''],
                opt_application = [''icmp-echo-request''],
                opt_service = [], opt_logging = [],
                opt_action = Some ''accept'', opt_option = None \<rparr>),
             (''ping-b'',
              \<lparr> opt_from_zone = [''trust''], opt_to_zone = [''untrust''], opt_description = [],
                opt_source = [''any''], opt_destination = [''any''],
                opt_application = [],
                opt_service = [], opt_logging = [],
                opt_action = Some ''accept'', opt_option = None \<rparr>)],
            [''from-zone'', ''trust'', ''to-zone'', ''untrust''])],
          [(header_out,
            [(ping_term ''ping-a'')\<lparr> pan_application := [''icmp-echo-request''] \<rparr>,
             ping_term ''ping-b''])])
   \<and> render_rule ''ping-b''
         \<lparr> opt_from_zone = [''trust''], opt_to_zone = [''untrust''], opt_description = [],
           opt_source = [''any''], opt_destination = [''any''],
           opt_application = [],
           opt_service = [], opt_logging = [],
           opt_action = Some ''accept'', opt_option = None \<rparr>
       = Inr [indent 8 @ ''<entry name='' @ dquote @ ''ping-b'' @ dquote @ ''>'',
              indent 9 @ ''<to>'', indent 10 @ ''<member>untrust</member>'', indent 9 @ ''</to>'',
              indent 9 @ ''<from>'', indent 10 @ ''<member>trust</member>'', indent 9 @ ''</from>'',
              indent 9 @ ''<source>'', indent 10 @ ''<member>any</member>'',
              indent 9 @ ''</source>'',
              indent 9 @ ''<destination>'', indent 10 @ ''<member>any</member>'',
              indent 9 @ ''</destination>'',
              indent 9 @ ''<service>'', indent 10 @ ''<member>any</member>'',
              indent 9 @ ''</service>'',
              indent 9 @ ''<action>allow</action>'',
              indent 9 @ ''<rule-type>interzone</rule-type>'',
              indent 9 @ ''<application>'', indent 10 @ ''<member>any</member>'',
              indent 9 @ ''</application>'',
              indent 8 @ ''</entry>'']"
proof (intro conjI)
  define S where "S = (new_pafw [])\<lparr> from_zone := ''trust'', to_zone := ''untrust'' \<rparr>"
  define S1 where "S1 = S\<lparr> application_refs :=
                  [(''icmp-echo-request'',
                    make_app_entry ''icmp-echo-request'' ''ident-by-icmp-type'' 8 4)],
                applications := [''icmp-echo-request''] \<rparr>"
  have a: "translate_term example_env ''inet'' S [] (ping_term ''ping-a'')
     = Inr (S1, [''ping-a''], (ping_term ''ping-a'')\<lparr> pan_application := [''icmp-echo-request''] \<rparr>, True)"
    unfolding S1_def
    using translate_ping_first [of "''ping-a''" "[]" S] by (simp add: S_def new_pafw_def)
  have b: "translate_term example_env ''inet'' S1 [''ping-a''] (ping_term ''ping-b'')
     = Inr (S1, [''ping-a'', ''ping-b''], ping_term ''ping-b'', True)"
    using translate_ping_second [of "''ping-b''" "[''ping-a'']" S1] by (simp add: S1_def)
  have tt: "translate_terms example_env ''inet'' S [] [ping_term ''ping-a'', ping_term ''ping-b'']
     = Inr (S1, [''ping-a'', ''ping-b''],
            [(ping_term ''ping-a'')\<lparr> pan_application := [''icmp-echo-request''] \<rparr>,
             ping_term ''ping-b''],
            [(ping_term ''ping-a'')\<lparr> pan_application := [''icmp-echo-request''] \<rparr>,
             ping_term ''ping-b''])"
    by (simp add: a b)
  have pb: "ping_term ''ping-b'' = (ping_term ''ping-b'')\<lparr> pan_application := [] \<rparr>"
    by (simp add: ping_term_def empty_term_def)
  have rb: "Rule smap ''trust'' ''untrust'' (ping_term ''ping-b'')
     = Inr (\<lparr> opt_from_zone = [''trust''], opt_to_zone = [''untrust''], opt_description = [],
              opt_source = [''any''], opt_destination = [''any''], opt_application = [],
              opt_service = [], opt_logging = [],
              opt_action = Some ''accept'', opt_option = None \<rparr>, smap)" for smap
    by (subst pb) (simp add: Rule_ping)
  have z: "from_zone S1 = ''trust''" "to_zone S1 = ''untrust''" "services S1 = []"
    "pafw_policies S1 = []"
    "application_refs S1 = [(''icmp-echo-request'',
                    make_app_entry ''icmp-echo-request'' ''ident-by-icmp-type'' 8 4)]"
    by (simp_all add: S1_def S_def new_pafw_def)
  have br: "build_ruleset ''trust'' ''untrust'' [] []
       [(ping_term ''ping-a'')\<lparr> pan_application := [''icmp-echo-request''] \<rparr>, ping_term ''ping-b'']
     = Inr ([(''ping-a'',
              \<lparr> opt_from_zone = [''trust''], opt_to_zone = [''untrust''], opt_description = [],
                opt_source = [''any''], opt_destination = [''any''],
                opt_application = [''icmp-echo-request''],
                opt_service = [], opt_logging = [],
                opt_action = Some ''accept'', opt_option = None \<rparr>),
             (''ping-b'',
              \<lparr> opt_from_zone = [''trust''], opt_to_zone = [''untrust''], opt_description = [],
                opt_source = [''any''], opt_destination = [''any''],
                opt_application = [],
                opt_service = [], opt_logging = [],
                opt_action = Some ''accept'', opt_option = None \<rparr>)], [])"
    by (simp add: Rule_ping rb ping_term_fields)
  have fo: "FilterOptions header_out = [''from-zone'', ''trust'', ''to-zone'', ''untrust'']"
    by (simp add: header_out_def)
  have pl: "PLATFORM \<in> set (platforms header_out)" by (simp add: header_out_def PLATFORM_def)
  have c1: "\<not> (length (FilterOptions header_out) < 4 \<or> FilterOptions header_out ! 0 \<noteq> ''from-zone''
             \<or> FilterOptions header_out ! 2 \<noteq> ''to-zone'')" by (simp add: fo)
  have ft: "header_filter_type (FilterOptions header_out) = ''inet''"
    by (simp add: fo header_filter_type_def)
  have c2: "header_filter_type (FilterOptions header_out) \<in> set SUPPORTED_AF"
    by (simp add: ft SUPPORTED_AF_def)
  have sz: "(new_pafw [])\<lparr> from_zone := FilterOptions header_out ! 1,
                            to_zone := FilterOptions header_out ! 3 \<rparr> = S"
    by (simp add: S_def fo)
  have hd: "translate_header example_env (new_pafw [])
        (header_out, [ping_term ''ping-a'', ping_term ''ping-b''])
      = Inr (S1\<lparr> services := [],
                 pafw_policies :=
                   [(header_out,
                     [(''ping-a'',
              \<lparr> opt_from_zone = [''trust''], opt_to_zone = [''untrust''], opt_description = [],
                opt_source = [''any''], opt_destination = [''any''],
                opt_application = [''icmp-echo-request''],
                opt_service = [], opt_logging = [],
                opt_action = Some ''accept'', opt_option = None \<rparr>),
             (''ping-b'',
              \<lparr> opt_from_zone = [''trust''], opt_to_zone = [''untrust''], opt_description = [],
                opt_source = [''any''], opt_destination = [''any''],
                opt_application = [],
                opt_service = [], opt_logging = [],
                opt_action = Some ''accept'', opt_option = None \<rparr>)],
                     FilterOptions header_out)] \<rparr>,
             [(ping_term ''ping-a'')\<lparr> pan_application := [''icmp-echo-request''] \<rparr>,
              ping_term ''ping-b''])"
    unfolding translate_header_checked [OF pl c1 c2] ft sz tt prod.case sum.case z br
    by simp
  show "map_sum id (\<lambda>r. (application_refs (fst r), pafw_policies (fst r), snd r))
     (TranslatePolicy example_env (new_pafw [])
        [(header_out, [ping_term ''ping-a'', ping_term ''ping-b''])])
   = Inr ([(''icmp-echo-request'',
            \<lparr> app_category = ''networking'', app_subcategory = ''ip-protocol'',
              app_technology = ''network-protocol'', app_description = ''icmp-echo-request'',
              app_default = [(''ident-by-icmp-type'', ''8'')], app_risk = ''4'' \<rparr>)],
          [(header_out,
            [(''ping-a'',
              \<lparr> opt_from_zone = [''trust''], opt_to_zone = [''untrust''], opt_description = [],
                opt_source = [''any''], opt_destination = [''any''],
                opt_application = [''icmp-echo-request''],
                opt_service = [], opt_logging = [],
                opt_action = Some ''accept'', opt_option = None \<rparr>),
             (''ping-b'',
              \<lparr> opt_from_zone = [''trust''], opt_to_zone = [''untrust''], opt_description = [],
                opt_source = [''any''], opt_destination = [''any''],
                opt_application = [],
                opt_service = [], opt_logging = [],
                opt_action = Some ''accept'', opt_option = None \<rparr>)],
            [''from-zone'', ''trust'', ''to-zone'', ''untrust''])],
          [(header_out,
            [(ping_term ''ping-a'')\<lparr> pan_application := [''icmp-echo-request''] \<rparr>,
             ping_term ''ping-b''])])"
    by (simp add: hd z fo echo_request_entry)
next
  show "render_rule ''ping-b''
         \<lparr> opt_from_zone = [''trust''], opt_to_zone = [''untrust''], opt_description = [],
           opt_source = [''any''], opt_destination = [''any''],
           opt_application = [],
           opt_service = [], opt_logging = [],
           opt_action = Some ''accept'', opt_option = None \<rparr>
       = Inr [indent 8 @ ''<entry name='' @ dquote @ ''ping-b'' @ dquote @ ''>'',
              indent 9 @ ''<to>'', indent 10 @ ''<member>untrust</member>'', indent 9 @ ''</to>'',
              indent 9 @ ''<from>'', indent 10 @ ''<member>trust</member>'', indent 9 @ ''</from>'',
              indent 9 @ ''<source>'', indent 10 @ ''<member>any</member>'',
              indent 9 @ ''</source>'',
              indent 9 @ ''<destination>'', indent 10 @ ''<member>any</member>'',
              indent 9 @ ''</destination>'',
              indent 9 @ ''<service>'', indent 10 @ ''<member>any</member>'',
              indent 9 @ ''</service>'',
              indent 9 @ ''<action>allow</action>'',
              indent 9 @ ''<rule-type>interzone</rule-type>'',
              indent 9 @ ''<application>'', indent 10 @ ''<member>any</member>'',
              indent 9 @ ''</application>'',
              indent 8 @ ''</entry>'']"
    by (simp add: render_rule_def ACTIONS_def member_line_def address_members_def
        render_logging_def)
qed

subsection \<open>One service for a pair of ports and protocol\<close>

text \<open>Registrations only add to the registry: the entry of a key and its name stay,
  keys and names stay distinct.\<close>

lemma registry_reaches_trans:
  "registry_reaches m2 m3 \<Longrightarrow> registry_reaches m1 m2 \<Longrightarrow> registry_reaches m1 m3"
  by (induction rule: registry_reaches.induct) (auto intro: registry_reaches.intros)

lemma Service_appends:
  assumes "Service m ports tname p = Inr m'"
  shows "m' = m @ [((ports, p), final_service_name tname p)]"
    and "(ports, p) \<notin> set (map fst m)" and "final_service_name tname p \<notin> set (map snd m)"
  using assms
  by (auto simp: Service_def Let_def dict_set_absent dict_has_def split: if_splits)

lemma Service_keeps:
  assumes "Service m ports tname p = Inr m'" and "dict_get m k = Some n"
  shows "dict_get m' k = Some n"
  using assms(2) unfolding Service_appends(1) [OF assms(1)] dict_get_def
  by (simp add: map_add_Some_iff)


lemma registry_reaches_keeps:
  "registry_reaches m m' \<Longrightarrow> dict_get m k = Some n \<Longrightarrow> dict_get m' k = Some n"
  by (induction rule: registry_reaches.induct) (auto dest: Service_keeps)


lemma service_lookup_result:
  assumes "service_lookup m ports tname p = Inr (n, m1)"
  shows "dict_get m1 (ports, p) = Some n" and "registry_reaches m m1"
proof -
  show "dict_get m1 (ports, p) = Some n"
    using assms by (auto simp: service_lookup_def split: option.splits sum.splits)
  show "registry_reaches m m1"
  proof (cases "dict_get m (ports, p)")
    case (Some x)
    with assms have "m1 = m" by (simp add: service_lookup_def)
    then show ?thesis by (simp add: registry_reaches.same)
  next
    case None
    with assms have "Service m ports tname p = Inr m1"
      by (auto simp: service_lookup_def split: option.splits sum.splits)
    then show ?thesis by (rule registry_reaches.created [OF registry_reaches.same])
  qed
qed




lemma service_loop_result:
  "service_loop ports tname m acc ps = Inr (acc', m') \<Longrightarrow>
   registry_reaches m m' \<and> acc' = acc @ map (\<lambda>q. the (dict_get m' (ports, q))) ps"
proof (induction ps arbitrary: m acc)
  case Nil
  then show ?case by (simp add: registry_reaches.same)
next
  case (Cons q ps)
  from Cons.prems obtain n m1 where
    1: "service_lookup m ports tname q = Inr (n, m1)"
    and 2: "service_loop ports tname m1 (acc @ [n]) ps = Inr (acc', m')"
    by (auto split: sum.splits prod.splits)
  note r = service_lookup_result [OF 1]
  from Cons.IH [OF 2] have 3: "registry_reaches m1 m'"
    and 4: "acc' = (acc @ [n]) @ map (\<lambda>q. the (dict_get m' (ports, q))) ps" by simp_all
  from registry_reaches_keeps [OF 3 r(1)] have "dict_get m' (ports, q) = Some n" .
  with 4 have "acc' = acc @ map (\<lambda>q. the (dict_get m' (ports, q))) (q # ps)" by simp
  with registry_reaches_trans [OF 3 r(2)] show ?case by simp
qed

lemma Rule_result:
  assumes "Rule m fz tz t = Inr (opts, m')"
  shows "registry_reaches m m'"
    and "destination_port t \<noteq> [] \<Longrightarrow>
         opt_service opts
           = map (\<lambda>q. the (dict_get m' (port_strings (destination_port t), q))) (protocol t)"
proof -
  show "registry_reaches m m'"
  proof (cases "destination_port t = []")
    case True
    with assms have "m' = m"
      by (auto simp: Rule_def ModifyOptions_def split: if_splits)
    then show ?thesis by (simp add: registry_reaches.same)
  next
    case False
    with assms obtain acc where
      "service_loop (port_strings (destination_port t)) (name t) m [] (protocol t) = Inr (acc, m')"
      by (auto simp: Rule_def ModifyOptions_def split: if_splits sum.splits prod.splits)
    from service_loop_result [OF this] show ?thesis by simp
  qed
  assume ne: "destination_port t \<noteq> []"
  with assms obtain acc where
    l: "service_loop (port_strings (destination_port t)) (name t) m [] (protocol t) = Inr (acc, m')"
    and "opt_service opts = acc"
    by (auto simp: Rule_def ModifyOptions_def split: if_splits sum.splits prod.splits)
  with service_loop_result [OF l]
  show "opt_service opts
           = map (\<lambda>q. the (dict_get m' (port_strings (destination_port t), q))) (protocol t)"
    by simp
qed

lemma build_ruleset_registry:
  "build_ruleset fz tz m rs ts = Inr (rs', m') \<Longrightarrow> registry_reaches m m'"
proof (induction ts arbitrary: m rs)
  case Nil
  then show ?case by (simp add: registry_reaches.same)
next
  case (Cons t ts)
  from Cons.prems obtain opts m1 where
    1: "Rule m fz tz t = Inr (opts, m1)"
    and 2: "build_ruleset fz tz m1 (dict_set rs (name t) opts) ts = Inr (rs', m')"
    by (auto split: sum.splits prod.splits)
  from registry_reaches_trans [OF Cons.IH [OF 2] Rule_result(1) [OF 1]] show ?case .
qed

lemma translate_terms_services:
  "translate_terms e ft st dup ts = Inr (st', dup', ts', nts) \<Longrightarrow> services st' = services st"
proof (induction ts arbitrary: st dup ts' nts)
  case Nil
  then show ?case by simp
next
  case (Cons t ts)
  from Cons.prems obtain st1 dup1 t1 k where
    1: "translate_term e ft st dup t = Inr (st1, dup1, t1, k)"
    by (auto split: sum.splits prod.splits)
  with Cons.prems obtain ts2 nts2 where
    2: "translate_terms e ft st1 dup1 ts = Inr (st', dup', ts2, nts2)"
    by (auto split: sum.splits prod.splits)
  from translate_term_frame(2) [OF 1] Cons.IH [OF 2] show ?case by simp
qed

lemma translate_header_registry:
  assumes "translate_header e st (h, ts) = Inr (st', ts')"
  shows "registry_reaches (services st) (services st')"
proof (cases "PLATFORM \<in> set (platforms h)")
  case False
  with assms have "st' = st" by (simp add: translate_header_def)
  then show ?thesis by (simp add: registry_reaches.same)
next
  case True
  note chk = translate_header_Inr_checked [OF True assms]
  from assms obtain s2 d2 x2 n2 where
    1: "translate_terms e (header_filter_type (FilterOptions h))
       (st\<lparr> from_zone := FilterOptions h ! 1, to_zone := FilterOptions h ! 3 \<rparr>) [] ts
     = Inr (s2, d2, x2, n2)"
    unfolding translate_header_checked [OF True chk]
    by (auto split: sum.splits prod.splits)
  with assms obtain rs m2 where
    2: "build_ruleset (from_zone s2) (to_zone s2) (services s2) [] n2 = Inr (rs, m2)"
    and 3: "services st' = m2"
    unfolding translate_header_checked [OF True chk]
    by (auto split: sum.splits prod.splits)
  from translate_terms_services [OF 1] have "services s2 = services st" by simp
  with build_ruleset_registry [OF 2] 3 show ?thesis by simp
qed

lemma TranslatePolicy_registry:
  "TranslatePolicy e st pol = Inr (st', pol') \<Longrightarrow> registry_reaches (services st) (services st')"
proof (induction pol arbitrary: st pol')
  case Nil
  then show ?case by (simp add: registry_reaches.same)
next
  case (Cons ht pol)
  obtain h ts where ht: "ht = (h, ts)" by (cases ht)
  from Cons.prems obtain st1 ts1 where
    1: "translate_header e st (h, ts) = Inr (st1, ts1)"
    by (auto simp: ht split: sum.splits prod.splits)
  with Cons.prems obtain rest where
    2: "TranslatePolicy e st1 pol = Inr (st', rest)"
    by (auto simp: ht split: sum.splits prod.splits)
  from registry_reaches_trans [OF Cons.IH [OF 2] translate_header_registry [OF 1]] show ?case .
qed



lemma entry_line_inject:
  "(indent 6 @ ''<entry name='' @ dquote @ a @ dquote @ ''>''
      = indent 6 @ ''<entry name='' @ dquote @ b @ dquote @ ''>'') = (a = b)"
  by (simp add: dquote_def)

















subsection \<open>The address book\<close>

text \<open>Dictionaries, and what a registration does to the buckets.\<close>

lemma dict_get_dict_set:
  "dict_get (dict_set d k v) k' = (if k' = k then Some v else dict_get d k')"
  by (induction d) (auto simp: dict_get_def)

lemma dict_get_simps:
  "dict_get [] k = None"
  "dict_get ((k', v) # d) k = (if k = k' then Some v else dict_get d k)"
  by (simp_all add: dict_get_def)

lemma dict_has_get: "dict_has d k = (dict_get d k \<noteq> None)"
  by (simp add: dict_has_def dict_get_def map_of_eq_None_iff)

lemma BuildAddressBook_bucket:
  "bucket_of (BuildAddressBook book zone b) z tk =
     (if z = zone \<and> tk = parent_token b
      then (if str_form b \<in> set (map (\<lambda>ip. str_form (fst ip)) (bucket_of book zone (parent_token b)))
            then bucket_of book zone (parent_token b)
            else bucket_of book zone (parent_token b)
                   @ [(b, parent_token b @ ''_''
                           @ str_nat (length (bucket_of book zone (parent_token b))))])
      else bucket_of book z tk)"
  by (auto simp: BuildAddressBook_def bucket_of_def Let_def dict_get_dict_set dict_has_get
      dict_get_simps split: option.splits)

lemma split_on_not_Nil: "split_on c s \<noteq> []"
  by (induction s) (auto split: list.splits)

lemma split_on_append:
  "split_on c (s @ c # d) = split_on c s @ split_on c d"
proof (induction s)
  case Nil
  then show ?case by simp
next
  case (Cons x s)
  then show ?case using split_on_not_Nil [of c s] by (auto split: list.splits)
qed

lemma join_split_on: "join [c] (split_on c s) = s"
proof (induction s)
  case Nil
  then show ?case by simp
next
  case (Cons x s)
  show ?case
  proof (cases "x = c")
    case True
    obtain p ps where "split_on c s = p # ps" using split_on_not_Nil [of c s] by (cases "split_on c s") auto
    with Cons True show ?thesis by simp
  next
    case False
    obtain p ps where ps: "split_on c s = p # ps" using split_on_not_Nil [of c s] by (cases "split_on c s") auto
    with Cons have "join [c] (p # ps) = s" by simp
    with False ps show ?thesis by (cases ps) auto
  qed
qed

lemma SortAddressBookNumCheck_0: "SortAddressBookNumCheck (tk @ ''_0'') = Inr (tk, 0)"
proof -
  have "split_on CHR ''_'' (tk @ ''_0'') = split_on CHR ''_'' tk @ [''0'']"
    using split_on_append [of "CHR ''_''" tk "''0''"] by simp
  then show ?thesis
    by (simp add: SortAddressBookNumCheck_def Let_def split_on_not_Nil join_split_on
        py_int_def strip_def is_space_def digits_value_def)
qed

lemma SortAddressBookNumCheck_1: "SortAddressBookNumCheck (tk @ ''_1'') = Inr (tk, 1)"
proof -
  have "split_on CHR ''_'' (tk @ ''_1'') = split_on CHR ''_'' tk @ [''1'']"
    using split_on_append [of "CHR ''_''" tk "''1''"] by simp
  then show ?thesis
    by (simp add: SortAddressBookNumCheck_def Let_def split_on_not_Nil join_split_on
        py_int_def strip_def is_space_def digits_value_def)
qed

lemma str_nat_0_1: "str_nat 0 = ''0''" "str_nat (Suc 0) = ''1''"
  by (simp_all add: str_nat.simps digit_char_def)

lemma BuildAddressBook_two:
  assumes "parent_token b = parent_token a" and "str_form b \<noteq> str_form a"
  shows "BuildAddressBook (BuildAddressBook [] zone a) zone b
     = [(zone, [(parent_token a, [(a, parent_token a @ ''_0''), (b, parent_token a @ ''_1'')])])]"
  using assms
  by (simp add: BuildAddressBook_def Let_def dict_has_def dict_get_def str_nat_0_1)

lemma address_book_names_two:
  "address_book_names [(zone, [(tk, [(a, tk @ ''_0''), (b, tk @ ''_1'')])])]
     = [(tk @ ''_0'', a), (tk @ ''_1'', b)]"
  by (simp add: address_book_names_def zone_names_def dict_get_def)

lemma address_book_keys_two:
  "address_book_keys [(tk @ ''_0'', a), (tk @ ''_1'', b)] = Inr [tk @ ''_0'', tk @ ''_1'']"
  by (simp add: address_book_keys_def SortAddressBookNumCheck_0 SortAddressBookNumCheck_1)

lemma render_addresses_two:
  assumes "parent_token b = parent_token a" and "str_form b \<noteq> str_form a"
  shows "render_addresses (BuildAddressBook (BuildAddressBook [] zone a) zone b)
     = Inr [indent 5 @ ''<!-- Addresses -->'', indent 5 @ ''<address>'',
            indent 6 @ ''<entry name='' @ dquote @ parent_token a @ ''_0'' @ dquote @ ''>'',
            indent 7 @ ''<description>'' @ parent_token a @ ''_0'' @ ''</description>'',
            indent 7 @ ''<ip-netmask>'' @ str_form a @ ''</ip-netmask>'',
            indent 6 @ ''</entry>'',
            indent 6 @ ''<entry name='' @ dquote @ parent_token a @ ''_1'' @ dquote @ ''>'',
            indent 7 @ ''<description>'' @ parent_token a @ ''_1'' @ ''</description>'',
            indent 7 @ ''<ip-netmask>'' @ str_form b @ ''</ip-netmask>'',
            indent 6 @ ''</entry>'',
            indent 5 @ ''</address>'']"
  unfolding BuildAddressBook_two [OF assms]
  by (simp add: render_addresses_def address_entries_def address_book_names_two
      address_book_keys_two render_address_def address_entry_line_def dict_get_def)


lemma net10_facts:
  "parent_token net10 = ''INTERNAL''" "parent_token net10_1 = ''INTERNAL''"
  "str_form net10 = ''10.0.0.0/8''" "str_form net10_1 = ''10.1.0.0/16''"
  by (simp_all add: net10_def net10_1_def)

text \<open>
  The network 10.0.0.0/8 and then its subnet 10.1.0.0/16, both of the token
  \<^verbatim>\<open>INTERNAL\<close>, registered under the zone \<^verbatim>\<open>trust\<close> of an empty address book: the
  subnet is stored as \<^verbatim>\<open>INTERNAL_1\<close> and the rendered addresses have an entry for it.
\<close>

theorem subnet_registered_counterexample:
  "parent_token net10_1 = parent_token net10
   \<and> supernet_of net10 net10_1 \<and> \<not> supernet_of net10_1 net10
   \<and> BuildAddressBook (BuildAddressBook [] ''trust'' net10) ''trust'' net10_1
       = [(''trust'', [(''INTERNAL'', [(net10, ''INTERNAL_0''), (net10_1, ''INTERNAL_1'')])])]
   \<and> render_addresses (BuildAddressBook (BuildAddressBook [] ''trust'' net10) ''trust'' net10_1)
       = Inr [indent 5 @ ''<!-- Addresses -->'', indent 5 @ ''<address>'',
            indent 6 @ ''<entry name='' @ dquote @ ''INTERNAL_0'' @ dquote @ ''>'',
            indent 7 @ ''<description>'' @ ''INTERNAL_0'' @ ''</description>'',
            indent 7 @ ''<ip-netmask>'' @ ''10.0.0.0/8'' @ ''</ip-netmask>'',
            indent 6 @ ''</entry>'',
            indent 6 @ ''<entry name='' @ dquote @ ''INTERNAL_1'' @ dquote @ ''>'',
            indent 7 @ ''<description>'' @ ''INTERNAL_1'' @ ''</description>'',
            indent 7 @ ''<ip-netmask>'' @ ''10.1.0.0/16'' @ ''</ip-netmask>'',
            indent 6 @ ''</entry>'',
            indent 5 @ ''</address>'']"
proof -
  have 1: "parent_token net10_1 = parent_token net10" by (simp add: net10_facts)
  have 2: "str_form net10_1 \<noteq> str_form net10" by (simp add: net10_facts)
  have 3: "supernet_of net10 net10_1" by (simp add: supernet_of_def net10_def net10_1_def)
  have 4: "\<not> supernet_of net10_1 net10" by (simp add: supernet_of_def net10_def net10_1_def)
  have 5: "BuildAddressBook (BuildAddressBook [] ''trust'' net10) ''trust'' net10_1
       = [(''trust'', [(''INTERNAL'', [(net10, ''INTERNAL_0''), (net10_1, ''INTERNAL_1'')])])]"
    using BuildAddressBook_two [OF 1 2, of "''trust''"] by (simp add: net10_facts)
  have 6: "render_addresses (BuildAddressBook (BuildAddressBook [] ''trust'' net10) ''trust'' net10_1)
       = Inr [indent 5 @ ''<!-- Addresses -->'', indent 5 @ ''<address>'',
            indent 6 @ ''<entry name='' @ dquote @ ''INTERNAL_0'' @ dquote @ ''>'',
            indent 7 @ ''<description>'' @ ''INTERNAL_0'' @ ''</description>'',
            indent 7 @ ''<ip-netmask>'' @ ''10.0.0.0/8'' @ ''</ip-netmask>'',
            indent 6 @ ''</entry>'',
            indent 6 @ ''<entry name='' @ dquote @ ''INTERNAL_1'' @ dquote @ ''>'',
            indent 7 @ ''<description>'' @ ''INTERNAL_1'' @ ''</description>'',
            indent 7 @ ''<ip-netmask>'' @ ''10.1.0.0/16'' @ ''</ip-netmask>'',
            indent 6 @ ''</entry>'',
            indent 5 @ ''</address>'']"
    using render_addresses_two [OF 1 2, of "''trust''"] by (simp add: net10_facts)
  from 1 3 4 5 6 show ?thesis by (intro conjI)
qed

text \<open>
  Claim C1, amended. Registering an object under a zone leaves the bucket of its token
  as it is when an entry of the bucket has the object's string form, and otherwise
  appends the object under the name \<^verbatim>\<open>token_k\<close>, \<open>k\<close> the length of the bucket: no
  entry is tested for being a supernet. So for two objects of one token with different
  string forms, registered in this order under one zone of an empty address book (a
  network and a strict subnet of it are such), the rendered addresses have the entry
  \<^verbatim>\<open>token_0\<close> with the first object's string form and the entry \<^verbatim>\<open>token_1\<close> with the
  second one's.
\<close>

theorem subnet_registered:
  assumes "parent_token b = parent_token a" and "str_form b \<noteq> str_form a"
  shows "bucket_of (BuildAddressBook book zone b) zone (parent_token b)
       = (if str_form b \<in> set (map (\<lambda>ip. str_form (fst ip)) (bucket_of book zone (parent_token b)))
          then bucket_of book zone (parent_token b)
          else bucket_of book zone (parent_token b)
                 @ [(b, parent_token b @ ''_''
                         @ str_nat (length (bucket_of book zone (parent_token b))))])
   \<and> BuildAddressBook (BuildAddressBook [] zone a) zone b
       = [(zone, [(parent_token a, [(a, parent_token a @ ''_0''), (b, parent_token a @ ''_1'')])])]
   \<and> render_addresses (BuildAddressBook (BuildAddressBook [] zone a) zone b)
       = Inr [indent 5 @ ''<!-- Addresses -->'', indent 5 @ ''<address>'',
            indent 6 @ ''<entry name='' @ dquote @ parent_token a @ ''_0'' @ dquote @ ''>'',
            indent 7 @ ''<description>'' @ parent_token a @ ''_0'' @ ''</description>'',
            indent 7 @ ''<ip-netmask>'' @ str_form a @ ''</ip-netmask>'',
            indent 6 @ ''</entry>'',
            indent 6 @ ''<entry name='' @ dquote @ parent_token a @ ''_1'' @ dquote @ ''>'',
            indent 7 @ ''<description>'' @ parent_token a @ ''_1'' @ ''</description>'',
            indent 7 @ ''<ip-netmask>'' @ str_form b @ ''</ip-netmask>'',
            indent 6 @ ''</entry>'',
            indent 5 @ ''</address>'']"
  using BuildAddressBook_bucket [of book zone b zone "parent_token b"]
    BuildAddressBook_two [OF assms] render_addresses_two [OF assms]
  by simp

theorem subnet_registered_witness:
  "parent_token net10_1 = parent_token net10 \<and> str_form net10_1 \<noteq> str_form net10
   \<and> bucket_of (BuildAddressBook (BuildAddressBook [] ''untrust'' net10) ''untrust'' net10_1)
        ''untrust'' ''INTERNAL''
       = [(net10, ''INTERNAL_0''), (net10_1, ''INTERNAL_1'')]
   \<and> render_addresses (BuildAddressBook (BuildAddressBook [] ''untrust'' net10) ''untrust'' net10_1)
       = Inr [indent 5 @ ''<!-- Addresses -->'', indent 5 @ ''<address>'',
            indent 6 @ ''<entry name='' @ dquote @ ''INTERNAL_0'' @ dquote @ ''>'',
            indent 7 @ ''<description>'' @ ''INTERNAL_0'' @ ''</description>'',
            indent 7 @ ''<ip-netmask>'' @ ''10.0.0.0/8'' @ ''</ip-netmask>'',
            indent 6 @ ''</entry>'',
            indent 6 @ ''<entry name='' @ dquote @ ''INTERNAL_1'' @ dquote @ ''>'',
            indent 7 @ ''<description>'' @ ''INTERNAL_1'' @ ''</description>'',
            indent 7 @ ''<ip-netmask>'' @ ''10.1.0.0/16'' @ ''</ip-netmask>'',
            indent 6 @ ''</entry>'',
            indent 5 @ ''</address>'']"
proof -
  have 1: "parent_token net10_1 = parent_token net10" by (simp add: net10_facts)
  have 2: "str_form net10_1 \<noteq> str_form net10" by (simp add: net10_facts)
  have b: "bucket_of (BuildAddressBook [] ''untrust'' net10) ''untrust'' ''INTERNAL''
       = [(net10, ''INTERNAL_0'')]"
    by (simp add: BuildAddressBook_def bucket_of_def Let_def dict_has_def dict_get_def
        net10_facts str_nat_0_1)
  note th = subnet_registered [OF 1 2, of "BuildAddressBook [] ''untrust'' net10" "''untrust''"]
  from th [THEN conjunct1] b have 3:
    "bucket_of (BuildAddressBook (BuildAddressBook [] ''untrust'' net10) ''untrust'' net10_1)
        ''untrust'' ''INTERNAL''
       = [(net10, ''INTERNAL_0''), (net10_1, ''INTERNAL_1'')]"
    by (simp add: net10_facts str_nat_0_1)
  from th [THEN conjunct2, THEN conjunct2] have 4:
    "render_addresses (BuildAddressBook (BuildAddressBook [] ''untrust'' net10) ''untrust'' net10_1)
       = Inr [indent 5 @ ''<!-- Addresses -->'', indent 5 @ ''<address>'',
            indent 6 @ ''<entry name='' @ dquote @ ''INTERNAL_0'' @ dquote @ ''>'',
            indent 7 @ ''<description>'' @ ''INTERNAL_0'' @ ''</description>'',
            indent 7 @ ''<ip-netmask>'' @ ''10.0.0.0/8'' @ ''</ip-netmask>'',
            indent 6 @ ''</entry>'',
            indent 6 @ ''<entry name='' @ dquote @ ''INTERNAL_1'' @ dquote @ ''>'',
            indent 7 @ ''<description>'' @ ''INTERNAL_1'' @ ''</description>'',
            indent 7 @ ''<ip-netmask>'' @ ''10.1.0.0/16'' @ ''</ip-netmask>'',
            indent 6 @ ''</entry>'',
            indent 5 @ ''</address>'']"
    by (simp add: net10_facts)
  from 1 2 3 4 show ?thesis by (intro conjI)
qed

end
